theory Spec2Isabelle
  imports Complex_Main "HOL-Library.AList" "HOL-Library.Char_ord" "HOL-Library.List_Lexorder"
begin

section \<open>Python values, exceptions and the session object\<close>

text \<open>
  The values that flow through \<^verbatim>\<open>Mastodon.py\<close>: the arguments a method
  hands to \<^verbatim>\<open>__generate_params\<close> and the decoded JSON of a response.
  \<open>PNum\<close> is a number, \<open>PTuple\<close> a tuple (a sequence that is not a
  \<^verbatim>\<open>list\<close>), \<open>PObj\<close> an object that is none of the others (the receiver
  \<^verbatim>\<open>self\<close> in a \<^verbatim>\<open>locals()\<close> snapshot). A string is a list of
  characters, each a code point below 256. A dict is an association list with distinct
  keys in insertion order, read with \<open>map_of\<close>, written with \<open>AList.update\<close>
  (in place, or appended), cut with \<open>AList.delete\<close>.
\<close>

datatype pyval =
    PNone
  | PBool bool
  | PNum int
  | PStr string
  | PList "pyval list"
  | PTuple "pyval list"
  | PDict "(string \<times> pyval) list"
  | PObj

type_synonym pydict = "(string \<times> pyval) list"

text \<open>
  The four exception classes of the module, and the built-in ones its code can raise
  (\<open>OSError\<close> stands for its subclasses too, \<^verbatim>\<open>FileNotFoundError\<close> and the
  like).
\<close>

datatype error =
    MastodonIllegalArgumentError string
  | MastodonNetworkError string
  | MastodonAPIError string
  | MastodonRatelimitError string
  | UnboundLocalError string
  | KeyError string
  | TypeError
  | ValueError
  | AttributeError
  | OverflowError
  | ZeroDivisionError
  | OSError

text \<open>The attributes \<^verbatim>\<open>__init__\<close> gives a \<^verbatim>\<open>Mastodon\<close> object. Times are
  seconds since the epoch; a Python \<^verbatim>\<open>float\<close> is the real number it stands for.\<close>

record session =
  api_base_url :: string
  client_id :: string
  client_secret :: "string option"
  access_token :: pyval
  debug_requests :: bool
  ratelimit_method :: string
  ratelimit_limit :: int
  ratelimit_reset :: real
  ratelimit_remaining :: int
  ratelimit_lastcall :: real
  ratelimit_pacefactor :: real

section \<open>The world outside: clock, network, files\<close>

text \<open>
  What \<^verbatim>\<open>requests.get/post/delete\<close> is called with, and what comes back. A
  response carries its status code, the result of \<^verbatim>\<open>.json()\<close> (\<open>None\<close> when
  decoding raises) and the three rate-limit headers as \<^verbatim>\<open>int(...)\<close> and
  \<^verbatim>\<open>datetime.strptime(...) - datetime(1970, 1, 1)\<close> read them (\<open>Inl\<close> the
  exception, \<^verbatim>\<open>KeyError\<close> for a missing header and \<^verbatim>\<open>ValueError\<close> for one
  that does not parse).
\<close>

record request =
  http_method :: string
  url :: string
  data :: pydict
  headers :: "(string \<times> string) list option"
  files :: pydict

record response =
  status_code :: int
  json :: "pyval option"
  x_ratelimit_remaining :: "error + int"
  x_ratelimit_limit :: "error + int"
  x_ratelimit_reset :: "error + real"

datatype reply = ConnectionFailed | Responded response

text \<open>
  The world: \<open>clock\<close> is what \<^verbatim>\<open>time.time()\<close> returns, \<open>sent\<close> logs every
  HTTP request with the time it was issued, \<open>server n\<close> is how long the \<open>n\<close>-th
  request takes and what it yields, \<open>fs\<close> maps the paths of the regular files to
  their text, \<open>open_error p\<close> is the exception that \<^verbatim>\<open>open(p, 'w')\<close> raises,
  if it raises one, and \<open>double x\<close> is the \<^verbatim>\<open>float\<close> that the machine's
  arithmetic gives for the exact result \<open>x\<close> of an operation (its rounding). Only
  sleeping and waiting for the network move the clock.
\<close>

record world =
  clock :: real
  sent :: "(real \<times> request) list"
  server :: "nat \<Rightarrow> real \<times> reply"
  fs :: "string \<rightharpoonup> string"
  open_error :: "string \<Rightarrow> error option"
  double :: "real \<Rightarrow> real"

text \<open>
  \<^verbatim>\<open>float(i)\<close> of an integer: \<^verbatim>\<open>OverflowError\<close> when \<open>i\<close>, rounded to 53
  bits, is beyond the largest double, that is from \<open>2^1024 - 2^970\<close> on.
\<close>

definition float_of_int :: "world \<Rightarrow> int \<Rightarrow> error + real" where
  "float_of_int w i =
     (if 2 ^ 1024 - 2 ^ 970 \<le> \<bar>i\<bar> then Inl OverflowError
      else Inr (double w (real_of_int i)))"

text \<open>
  What the rounding of doubles is known to do, whatever the machine: it keeps the order,
  and it leaves 0 and 1 as they are.
\<close>

definition double_rounding :: "world \<Rightarrow> bool" where
  "double_rounding w \<longleftrightarrow>
     (\<forall>x y. x \<le> y \<longrightarrow> double w x \<le> double w y) \<and> double w 0 = 0 \<and> double w 1 = 1"

text \<open>\<^verbatim>\<open>time.sleep(d)\<close>: raises \<^verbatim>\<open>ValueError\<close> on a negative length.\<close>

definition time_sleep :: "real \<Rightarrow> world \<Rightarrow> error option \<times> world" where
  "time_sleep d w =
     (if d < 0 then (Some ValueError, w) else (None, w\<lparr>clock := clock w + d\<rparr>))"

text \<open>One call of \<^verbatim>\<open>requests.get\<close>, \<^verbatim>\<open>post\<close> or \<^verbatim>\<open>delete\<close>.\<close>

definition http :: "request \<Rightarrow> world \<Rightarrow> reply \<times> world" where
  "http rq w =
     (case server w (length (sent w)) of
        (took, rep) \<Rightarrow> (rep, w\<lparr>clock := clock w + took, sent := sent w @ [(clock w, rq)]\<rparr>))"

section \<open>\<^verbatim>\<open>__api_request\<close>\<close>

text \<open>
  Lines 413 to 424, the pacing before the request. In the branch
  \<^verbatim>\<open>ratelimit_remaining == 0\<close> the local \<^verbatim>\<open>remaining_wait\<close> is never
  assigned, and the test \<^verbatim>\<open>if remaining_wait > 0\<close> that follows both branches
  reads it. The other branch computes in doubles: each of its five operations gives the
  rounded result, \<^verbatim>\<open>float(self.ratelimit_remaining)\<close> can overflow, and a
  division by a zero \<^verbatim>\<open>float\<close> raises. The times are readings of the clock and
  dates of the calendar, finite and far below the largest double, so that no operation
  on them gives an infinity.
\<close>

definition pace_block :: "session \<Rightarrow> world \<Rightarrow> error option \<times> world" where
  "pace_block s w =
     (if ratelimit_method s = ''pace'' then
        (if ratelimit_remaining s = 0 then
           (let to_next = ratelimit_reset s - clock w in
            case (if to_next > 0 then time_sleep to_next w else (None, w)) of
              (Some e, w1) \<Rightarrow> (Some e, w1)
            | (None, w1) \<Rightarrow> (Some (UnboundLocalError ''remaining_wait''), w1))
         else
           (let time_waited = double w (clock w - ratelimit_lastcall s);
                to_reset = double w (ratelimit_reset s - clock w)
            in case float_of_int w (ratelimit_remaining s) of
                 Inl e \<Rightarrow> (Some e, w)
               | Inr remaining \<Rightarrow>
                   if remaining = 0 then (Some ZeroDivisionError, w)
                   else
                     (let time_wait = double w (to_reset / remaining);
                          remaining_wait = double w (time_wait - time_waited)
                      in if remaining_wait > 0
                         then time_sleep (double w (remaining_wait * ratelimit_pacefactor s)) w
                         else (None, w))))
      else (None, w))"

text \<open>Lines 427 and 428: \<^verbatim>\<open>'Bearer ' + self.access_token\<close> needs a string.\<close>

definition request_headers :: "session \<Rightarrow> error + (string \<times> string) list option" where
  "request_headers s =
     (case access_token s of
        PNone \<Rightarrow> Inr None
      | PStr t \<Rightarrow> Inr (Some [(''Authorization'', ''Bearer '' @ t)])
      | PBool b \<Rightarrow> Inl TypeError
      | PNum n \<Rightarrow> Inl TypeError
      | PList xs \<Rightarrow> Inl TypeError
      | PTuple xs \<Rightarrow> Inl TypeError
      | PDict d \<Rightarrow> Inl TypeError
      | PObj \<Rightarrow> Inl TypeError)"

text \<open>\<^verbatim>\<open>str(n)\<close> of an integer, in decimal.\<close>

fun str_nat :: "nat \<Rightarrow> string" where
  "str_nat n =
     (if n < 10 then [''0123456789'' ! n]
      else str_nat (n div 10) @ [''0123456789'' ! (n mod 10)])"

definition str_int :: "int \<Rightarrow> string" where
  "str_int i = (if i < 0 then ''-'' @ str_nat (nat (- i)) else str_nat (nat i))"

text \<open>\<^verbatim>\<open>p in t\<close> on two strings: \<open>p\<close> occurs in \<open>t\<close>.\<close>

fun has_substring :: "string \<Rightarrow> string \<Rightarrow> bool" where
  "has_substring p [] = (p = [])"
| "has_substring p (c # cs) = (take (length p) (c # cs) = p \<or> has_substring p cs)"

text \<open>
  Line 480, \<^verbatim>\<open>"error" in response and response["error"] == "Throttled"\<close>: on a
  dict the test reads the key; on a list, a tuple or a string that holds
  \<^verbatim>\<open>"error"\<close> the subscript raises; on a number, a boolean or \<^verbatim>\<open>None\<close>
  the membership test raises.
\<close>

definition is_throttled :: "pyval \<Rightarrow> error + bool" where
  "is_throttled resp =
     (case resp of
        PDict d \<Rightarrow>
          (case map_of d ''error'' of
             None \<Rightarrow> Inr False
           | Some v \<Rightarrow> Inr (v = PStr ''Throttled''))
      | PList xs \<Rightarrow> (if PStr ''error'' \<in> set xs then Inl TypeError else Inr False)
      | PTuple xs \<Rightarrow> (if PStr ''error'' \<in> set xs then Inl TypeError else Inr False)
      | PStr t \<Rightarrow> (if has_substring ''error'' t then Inl TypeError else Inr False)
      | PNone \<Rightarrow> Inl TypeError
      | PBool b \<Rightarrow> Inl TypeError
      | PNum n \<Rightarrow> Inl TypeError
      | PObj \<Rightarrow> Inl TypeError)"

text \<open>
  Lines 463 to 488, what the loop body does with a response. The result is the
  exception raised, or \<^verbatim>\<open>request_complete\<close> with the decoded response; the
  session and the world are returned as they stand at that point.
\<close>

definition handle_response ::
  "response \<Rightarrow> session \<Rightarrow> world \<Rightarrow> (error + bool \<times> pyval) \<times> session \<times> world" where
  "handle_response r s w =
     (if status_code r = 404 then (Inl (MastodonAPIError ''Endpoint not found.''), s, w)
      else if status_code r = 500 then (Inl (MastodonAPIError ''General API problem.''), s, w)
      else
        (case json r of
           None \<Rightarrow>
             (Inl (MastodonAPIError
                (''Could not parse response as JSON, respose code was '' @ str_int (status_code r))),
              s, w)
         | Some resp \<Rightarrow>
             (case x_ratelimit_remaining r of
                Inl e \<Rightarrow> (Inl e, s, w)
              | Inr remaining \<Rightarrow>
                  (let s1 = s\<lparr>ratelimit_remaining := remaining\<rparr> in
                   case x_ratelimit_limit r of
                     Inl e \<Rightarrow> (Inl e, s1, w)
                   | Inr limit \<Rightarrow>
                       (let s2 = s1\<lparr>ratelimit_limit := limit\<rparr> in
                        case x_ratelimit_reset r of
                          Inl e \<Rightarrow> (Inl e, s2, w)
                        | Inr reset \<Rightarrow>
                            (let s3 = s2\<lparr>ratelimit_reset := reset, ratelimit_lastcall := clock w\<rparr> in
                             case is_throttled resp of
                               Inl e \<Rightarrow> (Inl e, s3, w)
                             | Inr throttled \<Rightarrow>
                                 if throttled then
                                   (if ratelimit_method s3 = ''throw''
                                    then (Inl (MastodonRatelimitError ''Hit rate limit.''), s3, w)
                                    else if ratelimit_method s3 = ''wait'' \<or> ratelimit_method s3 = ''pace''
                                    then
                                      (let to_next = ratelimit_reset s3 - clock w in
                                       case (if to_next > 0 then time_sleep to_next w else (None, w)) of
                                         (Some e, w1) \<Rightarrow> (Inl e, s3, w1)
                                       | (None, w1) \<Rightarrow> (Inr (False, resp), s3, w1))
                                    else (Inr (True, resp), s3, w))
                                 else (Inr (True, resp), s3, w)))))))"

text \<open>Lines 439 to 488, one turn of the \<^verbatim>\<open>while\<close> loop.\<close>

definition attempt ::
  "string \<Rightarrow> string \<Rightarrow> pydict \<Rightarrow> (string \<times> string) list option \<Rightarrow> pydict \<Rightarrow>
   session \<Rightarrow> world \<Rightarrow> (error + bool \<times> pyval) \<times> session \<times> world" where
  "attempt method endpoint params hdrs fls s w =
     (if method = ''GET'' \<or> method = ''POST'' \<or> method = ''DELETE'' then
        (case http \<lparr>http_method = method, url = api_base_url s @ endpoint, data = params,
                    headers = hdrs, files = fls\<rparr> w of
           (ConnectionFailed, w1) \<Rightarrow>
             (Inl (MastodonNetworkError ''Could not complete request.''), s, w1)
         | (Responded r, w1) \<Rightarrow> handle_response r s w1)
      else (Inl (MastodonIllegalArgumentError ''Illegal request.''), s, w))"

text \<open>
  The loop \<^verbatim>\<open>while not request_complete\<close>. It has no bound: against a server
  that always throttles it never returns, which is the value \<open>None\<close>.
\<close>

partial_function (option) request_loop ::
  "string \<Rightarrow> string \<Rightarrow> pydict \<Rightarrow> (string \<times> string) list option \<Rightarrow> pydict \<Rightarrow>
   session \<Rightarrow> world \<Rightarrow> ((error + pyval) \<times> session \<times> world) option" where
  "request_loop method endpoint params hdrs fls s w =
     (case attempt method endpoint params hdrs fls s w of
        (Inl e, s1, w1) \<Rightarrow> Some (Inl e, s1, w1)
      | (Inr (request_complete, resp), s1, w1) \<Rightarrow>
          if request_complete then Some (Inr resp, s1, w1)
          else request_loop method endpoint params hdrs fls s1 w1)"

text \<open>
  \<^verbatim>\<open>__api_request(method, endpoint, params, files)\<close>. The trace printed under
  \<^verbatim>\<open>debug_requests\<close> changes nothing else and is left out.
\<close>

definition api_request ::
  "string \<Rightarrow> string \<Rightarrow> pydict \<Rightarrow> pydict \<Rightarrow> session \<Rightarrow> world \<Rightarrow>
   ((error + pyval) \<times> session \<times> world) option" where
  "api_request method endpoint params fls s w =
     (case pace_block s w of
        (Some e, w1) \<Rightarrow> Some (Inl e, s, w1)
      | (None, w1) \<Rightarrow>
          (case request_headers s of
             Inl e \<Rightarrow> Some (Inl e, s, w1)
           | Inr hdrs \<Rightarrow> request_loop method endpoint params hdrs fls s w1))"

section \<open>\<^verbatim>\<open>__generate_params\<close>\<close>

text \<open>
  Lines 499 to 502: the keys are listed once, then each listed key is looked up and
  deleted when its value is \<^verbatim>\<open>None\<close> or its name is excluded.
\<close>

fun drop_absent :: "string list \<Rightarrow> string list \<Rightarrow> pydict \<Rightarrow> error + pydict" where
  "drop_absent [] exclude params = Inr params"
| "drop_absent (key # keys) exclude params =
     (case map_of params key of
        None \<Rightarrow> Inl (KeyError key)
      | Some v \<Rightarrow>
          if v = PNone \<or> key \<in> set exclude
          then drop_absent keys exclude (AList.delete key params)
          else drop_absent keys exclude params)"

text \<open>
  Lines 504 to 508: the keys are listed again, and each listed key whose value is a
  list (\<^verbatim>\<open>isinstance(v, list)\<close>) is stored under \<^verbatim>\<open>key + "[]"\<close> and
  deleted.
\<close>

fun is_list :: "pyval \<Rightarrow> bool" where
  "is_list (PList xs) = True"
| "is_list v = False"

fun rename_lists :: "string list \<Rightarrow> pydict \<Rightarrow> error + pydict" where
  "rename_lists [] params = Inr params"
| "rename_lists (key # keys) params =
     (case map_of params key of
        None \<Rightarrow> Inl (KeyError key)
      | Some v \<Rightarrow>
          if is_list v
          then rename_lists keys (AList.delete key (AList.update (key @ ''[]'') v params))
          else rename_lists keys params)"

text \<open>\<^verbatim>\<open>__generate_params(params, exclude)\<close>; \<^verbatim>\<open>del params['self']\<close> raises
  when the key is missing.\<close>

definition generate_params :: "pydict \<Rightarrow> string list \<Rightarrow> error + pydict" where
  "generate_params params exclude =
     (case map_of params ''self'' of
        None \<Rightarrow> Inl (KeyError ''self'')
      | Some self \<Rightarrow>
          (let params1 = AList.delete ''self'' params in
           case drop_absent (map fst params1) exclude params1 of
             Inl e \<Rightarrow> Inl e
           | Inr params2 \<Rightarrow> rename_lists (map fst params2) params2))"

section \<open>\<^verbatim>\<open>log_in\<close>\<close>

text \<open>\<^verbatim>\<open>" ".join(xs)\<close>, \<^verbatim>\<open>t.split(" ")\<close> and \<^verbatim>\<open>response[key]\<close>.\<close>

fun space_join :: "string list \<Rightarrow> string" where
  "space_join [] = []"
| "space_join [x] = x"
| "space_join (x # y # ys) = x @ '' '' @ space_join (y # ys)"

fun split_space :: "string \<Rightarrow> string list" where
  "split_space [] = [[]]"
| "split_space (c # cs) =
     (if c = CHR '' '' then [] # split_space cs
      else (case split_space cs of [] \<Rightarrow> [[c]] | x # xs \<Rightarrow> (c # x) # xs))"

definition subscript :: "pyval \<Rightarrow> string \<Rightarrow> error + pyval" where
  "subscript v key =
     (case v of
        PDict d \<Rightarrow> (case map_of d key of None \<Rightarrow> Inl (KeyError key) | Some x \<Rightarrow> Inr x)
      | PNone \<Rightarrow> Inl TypeError
      | PBool b \<Rightarrow> Inl TypeError
      | PNum n \<Rightarrow> Inl TypeError
      | PStr t \<Rightarrow> Inl TypeError
      | PList xs \<Rightarrow> Inl TypeError
      | PTuple xs \<Rightarrow> Inl TypeError
      | PObj \<Rightarrow> Inl TypeError)"

text \<open>
  Lines 121 to 125: the \<^verbatim>\<open>locals()\<close> of \<^verbatim>\<open>log_in\<close> at its first statement
  are its five parameters, in the order of the signature.
\<close>

definition log_in_params ::
  "session \<Rightarrow> pyval \<Rightarrow> pyval \<Rightarrow> string list \<Rightarrow> string option \<Rightarrow> error + pydict" where
  "log_in_params s username password scopes to_file =
     (case generate_params
             [(''self'', PObj), (''username'', username), (''password'', password),
              (''scopes'', PList (map PStr scopes)),
              (''to_file'', case to_file of None \<Rightarrow> PNone | Some path \<Rightarrow> PStr path)] [] of
        Inl e \<Rightarrow> Inl e
      | Inr params \<Rightarrow>
          Inr (AList.update ''scope'' (PStr (space_join scopes))
              (AList.update ''grant_type'' (PStr ''password'')
              (AList.update ''client_secret''
                 (case client_secret s of None \<Rightarrow> PNone | Some secret \<Rightarrow> PStr secret)
              (AList.update ''client_id'' (PStr (client_id s)) params)))))"

text \<open>
  \<^verbatim>\<open>log_in(username, password, scopes, to_file)\<close>. The bare \<^verbatim>\<open>except\<close> turns
  every exception of the request and of \<^verbatim>\<open>response['access_token']\<close> into the
  same \<^verbatim>\<open>MastodonIllegalArgumentError\<close>. \<^verbatim>\<open>open(to_file, 'w')\<close> raises
  when the world says so (a directory that does not exist, a path that may not be
  written); when it opens the file it empties it, before the write.
\<close>

definition log_in ::
  "pyval \<Rightarrow> pyval \<Rightarrow> string list \<Rightarrow> string option \<Rightarrow> session \<Rightarrow> world \<Rightarrow>
   ((error + pyval) \<times> session \<times> world) option" where
  "log_in username password scopes to_file s w =
     (case log_in_params s username password scopes to_file of
        Inl e \<Rightarrow> Some (Inl e, s, w)
      | Inr params \<Rightarrow>
          (case api_request ''POST'' ''/oauth/token'' params [] s w of
             None \<Rightarrow> None
           | Some (Inl e, s1, w1) \<Rightarrow>
               Some (Inl (MastodonIllegalArgumentError ''Invalid user name, password or scopes.''), s1, w1)
           | Some (Inr resp, s1, w1) \<Rightarrow>
               (case subscript resp ''access_token'' of
                  Inl e \<Rightarrow>
                    Some (Inl (MastodonIllegalArgumentError ''Invalid user name, password or scopes.''),
                          s1, w1)
                | Inr token \<Rightarrow>
                    (let s2 = s1\<lparr>access_token := token\<rparr>;
                         requested_scopes = space_join (sort scopes)
                     in case subscript resp ''scope'' of
                          Inl e \<Rightarrow> Some (Inl e, s2, w1)
                        | Inr (PStr granted) \<Rightarrow>
                            (let received_scopes = space_join (sort (split_space granted)) in
                             if requested_scopes \<noteq> received_scopes then
                               Some (Inl (MastodonAPIError
                                 (''Granted scopes '' @ [CHR 0x22] @ received_scopes @ [CHR 0x22] @
                                  '' differ from requested scopes '' @ [CHR 0x22] @
                                  requested_scopes @ [CHR 0x22] @ ''.'')),
                                 s2, w1)
                             else
                               (case to_file of
                                  None \<Rightarrow> Some (Inr token, s2, w1)
                                | Some path \<Rightarrow>
                                    (case open_error w1 path of
                                       Some e \<Rightarrow> Some (Inl e, s2, w1)
                                     | None \<Rightarrow>
                                         (case token of
                                            PStr t \<Rightarrow>
                                              Some (Inr token, s2,
                                                    w1\<lparr>fs := (fs w1)(path \<mapsto> t @ [CHR 0x0A])\<rparr>)
                                          | _ \<Rightarrow>
                                              Some (Inl TypeError, s2,
                                                    w1\<lparr>fs := (fs w1)(path \<mapsto> [])\<rparr>)))))
                        | Inr _ \<Rightarrow> Some (Inl AttributeError, s2, w1)))))"

section \<open>\<^verbatim>\<open>__init__\<close>\<close>

text \<open>
  \<^verbatim>\<open>readline()\<close> on the text still unread of a file opened with
  \<^verbatim>\<open>open(p, 'r')\<close>: the line and the rest. The text mode ends a line at a line
  feed, at a carriage return and at a carriage return followed by a line feed, and
  hands each of them over as one line feed. \<^verbatim>\<open>rstrip()\<close> drops every trailing
  whitespace character: of the code points below 256, the twelve that
  \<^verbatim>\<open>str.isspace\<close> accepts.
\<close>

fun readline :: "string \<Rightarrow> string \<times> string" where
  "readline [] = ([], [])"
| "readline (c # cs) =
     (if c = CHR 0x0A then ([CHR 0x0A], cs)
      else if c = CHR 0x0D then
        (case cs of
           [] \<Rightarrow> ([CHR 0x0A], [])
         | d # ds \<Rightarrow> if d = CHR 0x0A then ([CHR 0x0A], ds) else ([CHR 0x0A], d # ds))
      else (case readline cs of (line, rest) \<Rightarrow> (c # line, rest)))"

definition is_space :: "char \<Rightarrow> bool" where
  "is_space c \<longleftrightarrow>
     c \<in> set [CHR 0x09, CHR 0x0A, CHR 0x0B, CHR 0x0C, CHR 0x0D,
               CHR 0x1C, CHR 0x1D, CHR 0x1E, CHR 0x1F, CHR 0x20, CHR 0x85, CHR 0xA0]"

definition rstrip :: "string \<Rightarrow> string" where
  "rstrip t = rev (dropWhile is_space (rev t))"

text \<open>
  \<^verbatim>\<open>__init__(client_id, client_secret, access_token, api_base_url, debug_requests,
  ratelimit_method, ratelimit_pacefactor)\<close>. \<^verbatim>\<open>os.path.isfile(p)\<close> is
  \<open>fs w p \<noteq> None\<close>.
\<close>

definition init ::
  "string \<Rightarrow> string option \<Rightarrow> string option \<Rightarrow> string \<Rightarrow> bool \<Rightarrow> string \<Rightarrow> real \<Rightarrow>
   world \<Rightarrow> error + session" where
  "init cid secret token base_url debug method pacefactor w =
     (let s = \<lparr>api_base_url = base_url, client_id = cid, client_secret = secret,
                access_token = (case token of None \<Rightarrow> PNone | Some t \<Rightarrow> PStr t),
                debug_requests = debug, ratelimit_method = method,
                ratelimit_limit = 150, ratelimit_reset = clock w, ratelimit_remaining = 150,
                ratelimit_lastcall = clock w, ratelimit_pacefactor = 9 / 10\<rparr>
      in case (case fs w (client_id s) of
                 Some secret_file \<Rightarrow>
                   (case readline secret_file of
                      (line1, rest) \<Rightarrow>
                        Inr (s\<lparr>client_id := rstrip line1,
                               client_secret := Some (rstrip (fst (readline rest)))\<rparr>))
               | None \<Rightarrow>
                   (if client_secret s = None
                    then Inl (MastodonIllegalArgumentError
                           ''Specified client id directly, but did not supply secret'')
                    else Inr s)) of
           Inl e \<Rightarrow> Inl e
         | Inr s1 \<Rightarrow>
             (case token of
                None \<Rightarrow> Inr s1
              | Some t \<Rightarrow>
                  (case fs w t of
                     None \<Rightarrow> Inr s1
                   | Some token_file \<Rightarrow>
                       Inr (s1\<lparr>access_token := PStr (rstrip (fst (readline token_file)))\<rparr>))))"

section \<open>The pacing formula in doubles\<close>

text \<open>
  The bracket of the pacing formula, \<open>(reset_at - now) / remaining - (now -
  last_call_at)\<close>, with each of its operations and the conversion of
  \<open>remaining\<close> rounded to a double.
\<close>

definition paced_wait :: "session \<Rightarrow> world \<Rightarrow> real" where
  "paced_wait s w =
     double w (double w (double w (ratelimit_reset s - clock w)
                          / double w (real_of_int (ratelimit_remaining s)))
               - double w (clock w - ratelimit_lastcall s))"

section \<open>The lines of a credentials file\<close>

text \<open>
  How a line of a text file ends, before the rest \<open>rest\<close> of the file: with a line
  feed, with a carriage return and a line feed, with a carriage return that no line
  feed follows, or with the end of the file.
\<close>

definition ends_line :: "string \<Rightarrow> string \<Rightarrow> bool" where
  "ends_line t rest \<longleftrightarrow>
     t = [CHR 0x0A] \<or> t = [CHR 0x0D, CHR 0x0A]
     \<or> (t = [CHR 0x0D] \<and> (case rest of [] \<Rightarrow> True | d # ds \<Rightarrow> d \<noteq> CHR 0x0A))
     \<or> (t = [] \<and> rest = [])"

section \<open>What \<^verbatim>\<open>__generate_params\<close> keeps\<close>

text \<open>
  The entries that the claim about \<^verbatim>\<open>__generate_params\<close> says are kept: every
  key but \<^verbatim>\<open>self\<close> whose value is not \<^verbatim>\<open>None\<close> and whose name is not
  excluded.
\<close>

definition kept :: "pydict \<Rightarrow> string list \<Rightarrow> string \<Rightarrow> pyval \<Rightarrow> bool" where
  "kept params exclude k v \<longleftrightarrow>
     map_of params k = Some v \<and> k \<noteq> ''self'' \<and> v \<noteq> PNone \<and> k \<notin> set exclude"

section \<open>The claim's reading of a line without its newline\<close>

text \<open>
  "The file's first two lines, stripped of trailing newline", read by the words: the
  line without the newline that ends it, nothing else removed. The code calls
  \<^verbatim>\<open>rstrip()\<close> instead.
\<close>

definition strip_newline :: "string \<Rightarrow> string" where
  "strip_newline line = (if line \<noteq> [] \<and> last line = CHR 0x0A then butlast line else line)"

section \<open>Requests and responses of one call\<close>

text \<open>The request that every turn of the loop of one call issues.\<close>

definition the_request ::
  "string \<Rightarrow> string \<Rightarrow> pydict \<Rightarrow> (string \<times> string) list option \<Rightarrow> pydict \<Rightarrow> session \<Rightarrow> request" where
  "the_request method endpoint params hdrs fls s =
     \<lparr>http_method = method, url = api_base_url s @ endpoint, data = params,
      headers = hdrs, files = fls\<rparr>"

text \<open>
  A response that gets as far as the throttle test of line 480: its status is neither
  404 nor 500, its body decodes and its three rate-limit headers parse. It is
  throttled when the decoded body is a dict whose \<^verbatim>\<open>"error"\<close> is
  \<^verbatim>\<open>"Throttled"\<close> (with the reset time it declares), and complete when the test
  says no.
\<close>

definition reaches_throttle_test :: "response \<Rightarrow> bool" where
  "reaches_throttle_test r \<longleftrightarrow>
     status_code r \<noteq> 404 \<and> status_code r \<noteq> 500 \<and> json r \<noteq> None \<and>
     \<not> isl (x_ratelimit_remaining r) \<and> \<not> isl (x_ratelimit_limit r) \<and>
     \<not> isl (x_ratelimit_reset r)"

definition throttled_response :: "response \<Rightarrow> real \<Rightarrow> bool" where
  "throttled_response r reset \<longleftrightarrow>
     reaches_throttle_test r \<and> x_ratelimit_reset r = Inr reset \<and>
     (case json r of None \<Rightarrow> False | Some j \<Rightarrow> is_throttled j = Inr True)"

definition complete_response :: "response \<Rightarrow> pyval \<Rightarrow> bool" where
  "complete_response r j \<longleftrightarrow>
     reaches_throttle_test r \<and> json r = Some j \<and> is_throttled j = Inr False"

section \<open>A session and a world to run the model on\<close>

text \<open>
  A session in \<^verbatim>\<open>pace\<close> mode at time 1000, whose window of 10 calls resets at
  1100 and whose last call was at 996; a server that answers every request after half
  a second with the JSON \<^verbatim>\<open>[]\<close>, 9 calls left and the reset at 1100. In the
  world of the examples every file can be opened for writing, and the rounding of
  doubles is the identity: the examples that compute in doubles use values that doubles
  hold exactly.
\<close>

definition plain_response :: response where
  "plain_response =
     \<lparr>status_code = 200, json = Some (PList []), x_ratelimit_remaining = Inr 9,
      x_ratelimit_limit = Inr 150, x_ratelimit_reset = Inr 1100\<rparr>"

definition paced_session :: session where
  "paced_session =
     \<lparr>api_base_url = ''https://mastodon.social'', client_id = ''id'',
      client_secret = Some ''secret'', access_token = PStr ''token'', debug_requests = False,
      ratelimit_method = ''pace'', ratelimit_limit = 150, ratelimit_reset = 1100,
      ratelimit_remaining = 10, ratelimit_lastcall = 996, ratelimit_pacefactor = 9 / 10\<rparr>"

definition quiet_world :: world where
  "quiet_world =
     \<lparr>clock = 1000, sent = [], server = (\<lambda>n. (1 / 2, Responded plain_response)),
      fs = Map.empty, open_error = (\<lambda>p. None), double = (\<lambda>x. x)\<rparr>"

text \<open>
  A throttled response that declares the reset at 1100; a server that throttles the
  first request; a server that throttles the first \<open>k\<close> requests and then answers
  with a given status and a body that does not decode.
\<close>

definition throttle_response :: response where
  "throttle_response =
     \<lparr>status_code = 429, json = Some (PDict [(''error'', PStr ''Throttled'')]),
      x_ratelimit_remaining = Inr 0, x_ratelimit_limit = Inr 150,
      x_ratelimit_reset = Inr 1100\<rparr>"

definition throttling_world :: world where
  "throttling_world =
     quiet_world\<lparr>server := (\<lambda>n. if n = 0 then (1 / 2, Responded throttle_response)
                                else (1 / 2, Responded plain_response))\<rparr>"

definition failing_world :: "nat \<Rightarrow> int \<Rightarrow> world" where
  "failing_world k code =
     quiet_world\<lparr>server := (\<lambda>n. if n < k then (1 / 2, Responded throttle_response)
        else (1 / 2, Responded
          \<lparr>status_code = code, json = None, x_ratelimit_remaining = Inr 9,
           x_ratelimit_limit = Inr 150, x_ratelimit_reset = Inr 1100\<rparr>))\<rparr>"

text \<open>
  A world whose rounding sends \<open>100 / 3\<close> to the double nearest to it,
  \<open>4691249611844267 / 2^47\<close>, and nine tenths of that double to the double nearest
  to them, \<open>8444249301319681 / 2^48 = 30 + 2^-48\<close>, and leaves the doubles that
  the example meets as they are. A server that throttles the first request and then
  answers with the JSON \<^verbatim>\<open>null\<close>.
\<close>

definition rounding_world :: world where
  "rounding_world =
     quiet_world\<lparr>double := (\<lambda>x. if x = 100 / 3 then 4691249611844267 / 2 ^ 47
                                else if x = 4691249611844267 / 2 ^ 47 * (9 / 10)
                                then 8444249301319681 / 2 ^ 48 else x)\<rparr>"

definition null_world :: world where
  "null_world =
     quiet_world\<lparr>server := (\<lambda>n. if n = 0 then (1 / 2, Responded throttle_response)
                                else (1 / 2, Responded (plain_response\<lparr>json := Some PNone\<rparr>)))\<rparr>"

text \<open>
  The \<^verbatim>\<open>locals()\<close> of a call with a scalar, an absent and a list argument, and
  those of \<^verbatim>\<open>status_post('hi', media_ids=(1, 2))\<close>.
\<close>

definition status_post_locals :: pydict where
  "status_post_locals =
     [(''self'', PObj), (''status'', PStr ''hi''), (''in_reply_to_id'', PNone),
      (''media_ids'', PTuple [PNum 1, PNum 2])]"

definition timeline_locals :: pydict where
  "timeline_locals =
     [(''self'', PObj), (''timeline'', PStr ''home''), (''max_id'', PNone),
      (''since_id'', PNum 3), (''media_ids'', PList [PNum 1, PNum 2])]"

text \<open>
  A session that has not logged in, in \<^verbatim>\<open>wait\<close> mode; a server that grants the
  token \<^verbatim>\<open>tok\<close> with the scope \<^verbatim>\<open>read\<close>; a world whose file
  \<^verbatim>\<open>app.secret\<close> has a given content.
\<close>

definition login_session :: session where
  "login_session = paced_session\<lparr>ratelimit_method := ''wait'', access_token := PNone\<rparr>"

definition token_response :: response where
  "token_response =
     \<lparr>status_code = 200,
      json = Some (PDict [(''access_token'', PStr ''tok''), (''scope'', PStr ''read'')]),
      x_ratelimit_remaining = Inr 9, x_ratelimit_limit = Inr 150,
      x_ratelimit_reset = Inr 1100\<rparr>"

definition token_world :: world where
  "token_world = quiet_world\<lparr>server := (\<lambda>n. (1 / 2, Responded token_response))\<rparr>"

definition secret_world :: "string \<Rightarrow> world" where
  "secret_world content = quiet_world\<lparr>fs := [''app.secret'' \<mapsto> content]\<rparr>"

section \<open>Facts about the parts\<close>

lemma time_sleep_pos: "0 \<le> d \<Longrightarrow> time_sleep d w = (None, w\<lparr>clock := clock w + d\<rparr>)"
  by (simp add: time_sleep_def)

lemma attempt_complete:
  assumes "meth = ''GET'' \<or> meth = ''POST'' \<or> meth = ''DELETE''"
    and "server w (length (sent w)) = (took, Responded r)"
    and "complete_response r j"
  shows "\<exists>s1. attempt meth endpoint params hdrs fls s w =
           (Inr (True, j), s1,
            w\<lparr>clock := clock w + took,
              sent := sent w @ [(clock w, the_request meth endpoint params hdrs fls s)]\<rparr>)
         \<and> api_base_url s1 = api_base_url s \<and> ratelimit_method s1 = ratelimit_method s"
  using assms
  by (auto simp add: attempt_def http_def handle_response_def complete_response_def
      reaches_throttle_test_def the_request_def Let_def split: sum.splits)

lemma attempt_throttled_retry:
  assumes "ratelimit_method s = ''wait'' \<or> ratelimit_method s = ''pace''"
    and "meth = ''GET'' \<or> meth = ''POST'' \<or> meth = ''DELETE''"
    and "server w (length (sent w)) = (took, Responded r)"
    and "throttled_response r reset"
  shows "\<exists>s1 j. attempt meth endpoint params hdrs fls s w =
           (Inr (False, j), s1,
            w\<lparr>clock := max (clock w + took) reset,
              sent := sent w @ [(clock w, the_request meth endpoint params hdrs fls s)]\<rparr>)
         \<and> api_base_url s1 = api_base_url s \<and> ratelimit_method s1 = ratelimit_method s"
  using assms
  by (auto simp add: attempt_def http_def handle_response_def throttled_response_def
      reaches_throttle_test_def the_request_def Let_def time_sleep_def max_def
      split: option.splits sum.splits)

lemma attempt_throttled_throw:
  assumes "ratelimit_method s = ''throw''"
    and "meth = ''GET'' \<or> meth = ''POST'' \<or> meth = ''DELETE''"
    and "server w (length (sent w)) = (took, Responded r)"
    and "throttled_response r reset"
  shows "\<exists>s1. attempt meth endpoint params hdrs fls s w =
           (Inl (MastodonRatelimitError ''Hit rate limit.''), s1,
            w\<lparr>clock := clock w + took,
              sent := sent w @ [(clock w, the_request meth endpoint params hdrs fls s)]\<rparr>)"
  using assms
  by (auto simp add: attempt_def http_def handle_response_def throttled_response_def
      reaches_throttle_test_def the_request_def Let_def
      split: option.splits sum.splits)

lemma attempt_unusable:
  assumes "meth = ''GET'' \<or> meth = ''POST'' \<or> meth = ''DELETE''"
    and "server w (length (sent w)) = (took, Responded r)"
    and "status_code r = 404 \<or> status_code r = 500 \<or> json r = None"
  shows "attempt meth endpoint params hdrs fls s w =
           (Inl (MastodonAPIError
              (if status_code r = 404 then ''Endpoint not found.''
               else if status_code r = 500 then ''General API problem.''
               else ''Could not parse response as JSON, respose code was '' @ str_int (status_code r))),
            s,
            w\<lparr>clock := clock w + took,
              sent := sent w @ [(clock w, the_request meth endpoint params hdrs fls s)]\<rparr>)"
  using assms
  by (auto simp add: attempt_def http_def handle_response_def the_request_def)

lemma pace_block_frame:
  "pace_block s w = (e, w1) \<Longrightarrow> server w1 = server w \<and> sent w1 = sent w \<and> fs w1 = fs w"
  by (auto simp add: pace_block_def time_sleep_def Let_def split: if_splits sum.splits)

lemma loop_prefix:
  assumes "n = 0 \<or> ratelimit_method s = ''wait'' \<or> ratelimit_method s = ''pace''"
    and "meth = ''GET'' \<or> meth = ''POST'' \<or> meth = ''DELETE''"
    and "\<forall>i<n. server w (length (sent w) + i) = (took i, Responded (rs i))
                \<and> throttled_response (rs i) (resets i)"
  shows "\<exists>s1 w1 ts.
           request_loop meth endpoint params hdrs fls s w =
             request_loop meth endpoint params hdrs fls s1 w1
           \<and> sent w1 = sent w @ map (\<lambda>t. (t, the_request meth endpoint params hdrs fls s)) ts
           \<and> length ts = n \<and> server w1 = server w \<and> fs w1 = fs w
           \<and> api_base_url s1 = api_base_url s \<and> ratelimit_method s1 = ratelimit_method s
           \<and> hd (ts @ [clock w1]) = clock w
           \<and> (\<forall>i<n. resets i \<le> (ts @ [clock w1]) ! Suc i)"
  using assms
proof (induction n arbitrary: s w took rs resets)
  case 0
  show ?case
    by (rule exI [of _ s], rule exI [of _ w], rule exI [of _ "[]"]) simp
next
  case (Suc n)
  let ?rq = "the_request meth endpoint params hdrs fls s"
  let ?w0 = "w\<lparr>clock := max (clock w + took 0) (resets 0), sent := sent w @ [(clock w, ?rq)]\<rparr>"
  have mode: "ratelimit_method s = ''wait'' \<or> ratelimit_method s = ''pace''"
    using Suc.prems(1) by simp
  have first: "server w (length (sent w)) = (took 0, Responded (rs 0))"
    and thr: "throttled_response (rs 0) (resets 0)"
    using Suc.prems(3) by auto
  from attempt_throttled_retry [OF mode Suc.prems(2) first thr, of endpoint params hdrs fls]
  obtain s0 j0 where a: "attempt meth endpoint params hdrs fls s w = (Inr (False, j0), s0, ?w0)"
    and b: "api_base_url s0 = api_base_url s" and m: "ratelimit_method s0 = ratelimit_method s"
    by blast
  have rq: "the_request meth endpoint params hdrs fls s0 = ?rq"
    by (simp add: the_request_def b)
  have mode0: "n = 0 \<or> ratelimit_method s0 = ''wait'' \<or> ratelimit_method s0 = ''pace''"
    using mode m by simp
  have later: "\<forall>i<n. server ?w0 (length (sent ?w0) + i) = (took (Suc i), Responded (rs (Suc i)))
                \<and> throttled_response (rs (Suc i)) (resets (Suc i))"
  proof (intro allI impI)
    fix i assume "i < n"
    then have "Suc i < Suc n" by simp
    with Suc.prems(3)
    have "server w (length (sent w) + Suc i) = (took (Suc i), Responded (rs (Suc i)))
            \<and> throttled_response (rs (Suc i)) (resets (Suc i))" by blast
    then show "server ?w0 (length (sent ?w0) + i) = (took (Suc i), Responded (rs (Suc i)))
                \<and> throttled_response (rs (Suc i)) (resets (Suc i))" by simp
  qed
  from Suc.IH [OF mode0 Suc.prems(2) later, unfolded rq]
  obtain s1 w1 ts where run: "request_loop meth endpoint params hdrs fls s0 ?w0 =
        request_loop meth endpoint params hdrs fls s1 w1"
    and log: "sent w1 = sent ?w0 @ map (\<lambda>t. (t, ?rq)) ts"
    and len: "length ts = n" and srv: "server w1 = server ?w0" and f: "fs w1 = fs ?w0"
    and b1: "api_base_url s1 = api_base_url s0" and m1: "ratelimit_method s1 = ratelimit_method s0"
    and h: "hd (ts @ [clock w1]) = clock ?w0"
    and times: "\<forall>i<n. resets (Suc i) \<le> (ts @ [clock w1]) ! Suc i"
    by blast
  have "request_loop meth endpoint params hdrs fls s w =
          request_loop meth endpoint params hdrs fls s1 w1"
    by (subst request_loop.simps) (simp add: a run)
  moreover have "sent w1 = sent w @ map (\<lambda>t. (t, ?rq)) (clock w # ts)"
    using log by simp
  moreover have "length (clock w # ts) = Suc n"
    using len by simp
  moreover have "server w1 = server w" "fs w1 = fs w"
    using srv f by simp_all
  moreover have "api_base_url s1 = api_base_url s" "ratelimit_method s1 = ratelimit_method s"
    using b b1 m m1 by simp_all
  moreover have "hd ((clock w # ts) @ [clock w1]) = clock w"
    by simp
  moreover have "\<forall>i<Suc n. resets i \<le> ((clock w # ts) @ [clock w1]) ! Suc i"
  proof (intro allI impI)
    fix i assume "i < Suc n"
    show "resets i \<le> ((clock w # ts) @ [clock w1]) ! Suc i"
    proof (cases i)
      case 0
      have "(ts @ [clock w1]) ! 0 = hd (ts @ [clock w1])"
        by (simp add: hd_conv_nth)
      then show ?thesis using 0 h by simp
    next
      case (Suc i')
      then show ?thesis using times \<open>i < Suc n\<close> by simp
    qed
  qed
  ultimately show ?case by blast
qed


lemma drop_absent_map:
  assumes "distinct keys" and "set keys \<subseteq> dom (map_of params)"
    and "distinct (map fst params)"
  shows "\<exists>out. drop_absent keys exclude params = Inr out \<and> distinct (map fst out)
           \<and> map_of out =
               (\<lambda>k. if k \<in> set keys \<and> (map_of params k = Some PNone \<or> k \<in> set exclude)
                    then None else map_of params k)"
  using assms
proof (induction keys arbitrary: params)
  case Nil
  then show ?case by simp
next
  case (Cons key keys)
  from Cons.prems(2) obtain v where v: "map_of params key = Some v"
    by auto
  show ?case
  proof (cases "v = PNone \<or> key \<in> set exclude")
    case True
    let ?p = "AList.delete key params"
    have m: "map_of ?p = (map_of params)(key := None)"
      by (rule delete_conv')
    have "set keys \<subseteq> dom (map_of ?p)"
      using Cons.prems(1,2) by (auto simp add: m)
    moreover have "distinct (map fst ?p)"
      using Cons.prems(3) by (rule distinct_delete)
    ultimately obtain out where o: "drop_absent keys exclude ?p = Inr out"
      "distinct (map fst out)"
      "map_of out =
         (\<lambda>k. if k \<in> set keys \<and> (map_of ?p k = Some PNone \<or> k \<in> set exclude)
              then None else map_of ?p k)"
      using Cons.IH [of ?p] Cons.prems(1) by auto
    have "map_of out =
            (\<lambda>k. if k \<in> set (key # keys) \<and> (map_of params k = Some PNone \<or> k \<in> set exclude)
                 then None else map_of params k)"
      using True v by (auto simp add: o(3) m fun_eq_iff)
    then show ?thesis
      using True v o(1,2) by simp
  next
    case False
    have "set keys \<subseteq> dom (map_of params)"
      using Cons.prems(2) by simp
    then obtain out where o: "drop_absent keys exclude params = Inr out"
      "distinct (map fst out)"
      "map_of out =
         (\<lambda>k. if k \<in> set keys \<and> (map_of params k = Some PNone \<or> k \<in> set exclude)
              then None else map_of params k)"
      using Cons.IH [of params] Cons.prems(1,3) by auto
    have "map_of out =
            (\<lambda>k. if k \<in> set (key # keys) \<and> (map_of params k = Some PNone \<or> k \<in> set exclude)
                 then None else map_of params k)"
      using False v by (auto simp add: o(3) fun_eq_iff)
    then show ?thesis
      using False v o(1,2) by simp
  qed
qed

lemma rename_lists_map:
  assumes "distinct keys" and "set keys \<subseteq> dom (map_of params)"
    and "distinct (map fst params)"
    and "\<forall>k\<in>set keys. \<forall>v. map_of params k = Some v \<longrightarrow> is_list v \<longrightarrow>
           map_of params (k @ ''[]'') = None"
  shows "\<exists>out. rename_lists keys params = Inr out \<and> distinct (map fst out)
           \<and> (\<forall>k' v. map_of out k' = Some v \<longleftrightarrow>
                 (map_of params k' = Some v \<and> (k' \<in> set keys \<longrightarrow> \<not> is_list v))
                 \<or> (\<exists>k\<in>set keys. map_of params k = Some v \<and> is_list v \<and> k' = k @ ''[]''))"
  using assms
proof (induction keys arbitrary: params)
  case Nil
  then show ?case by simp
next
  case (Cons key keys)
  from Cons.prems(2) obtain v where v: "map_of params key = Some v"
    by auto
  show ?case
  proof (cases "is_list v")
    case True
    let ?p = "AList.delete key (AList.update (key @ ''[]'') v params)"
    have fresh: "map_of params (key @ ''[]'') = None"
      using Cons.prems(4) v True by simp
    have m: "map_of ?p = ((map_of params)(key @ ''[]'' \<mapsto> v))(key := None)"
      by (simp add: delete_conv' update_conv')
    have sub: "set keys \<subseteq> dom (map_of ?p)"
    proof
      fix k assume k: "k \<in> set keys"
      then have "k \<noteq> key" using Cons.prems(1) by auto
      moreover have "k \<in> dom (map_of params)" using k Cons.prems(2) by auto
      ultimately show "k \<in> dom (map_of ?p)" by (auto simp add: m)
    qed
    have dist: "distinct (map fst ?p)"
      using Cons.prems(3) by (simp add: distinct_delete distinct_update)
    have coll: "\<forall>k\<in>set keys. \<forall>v'. map_of ?p k = Some v' \<longrightarrow> is_list v' \<longrightarrow>
           map_of ?p (k @ ''[]'') = None"
    proof (intro ballI allI impI)
      fix k v' assume k: "k \<in> set keys" and kv: "map_of ?p k = Some v'" and l: "is_list v'"
      have ne: "k \<noteq> key" using k Cons.prems(1) by auto
      have "k \<in> dom (map_of params)" using k Cons.prems(2) by auto
      then have ne2: "k \<noteq> key @ ''[]''" using fresh by auto
      have "map_of params k = Some v'" using kv ne ne2 by (simp add: m)
      then have "map_of params (k @ ''[]'') = None"
        using Cons.prems(4) k l by simp
      then show "map_of ?p (k @ ''[]'') = None"
        using ne by (simp add: m)
    qed
    from Cons.IH [OF _ sub dist coll] Cons.prems(1)
    obtain out where o: "rename_lists keys ?p = Inr out" "distinct (map fst out)"
      and c: "\<forall>k' v'. map_of out k' = Some v' \<longleftrightarrow>
                 (map_of ?p k' = Some v' \<and> (k' \<in> set keys \<longrightarrow> \<not> is_list v'))
                 \<or> (\<exists>k\<in>set keys. map_of ?p k = Some v' \<and> is_list v' \<and> k' = k @ ''[]'')"
      by auto
    have inner: "map_of ?p k = map_of params k" if "k \<in> set keys" for k
    proof -
      have "k \<noteq> key" using that Cons.prems(1) by auto
      moreover have "k \<in> dom (map_of params)" using that Cons.prems(2) by auto
      then have "k \<noteq> key @ ''[]''" using fresh by auto
      ultimately show ?thesis by (simp add: m)
    qed
    have "\<forall>k' v'. map_of out k' = Some v' \<longleftrightarrow>
                 (map_of params k' = Some v' \<and> (k' \<in> set (key # keys) \<longrightarrow> \<not> is_list v'))
                 \<or> (\<exists>k\<in>set (key # keys). map_of params k = Some v' \<and> is_list v' \<and> k' = k @ ''[]'')"
    proof (intro allI)
      fix k' v'
      have "(map_of ?p k' = Some v' \<and> (k' \<in> set keys \<longrightarrow> \<not> is_list v'))
            \<longleftrightarrow> (k' = key @ ''[]'' \<and> v' = v)
                \<or> (k' \<noteq> key \<and> map_of params k' = Some v' \<and> (k' \<in> set keys \<longrightarrow> \<not> is_list v'))"
        using fresh True Cons.prems(2) Cons.prems(4)
        by (auto simp add: m split: if_splits)
      moreover have "(\<exists>k\<in>set keys. map_of ?p k = Some v' \<and> is_list v' \<and> k' = k @ ''[]'')
            \<longleftrightarrow> (\<exists>k\<in>set keys. map_of params k = Some v' \<and> is_list v' \<and> k' = k @ ''[]'')"
        using inner by auto
      ultimately show "map_of out k' = Some v' \<longleftrightarrow>
                 (map_of params k' = Some v' \<and> (k' \<in> set (key # keys) \<longrightarrow> \<not> is_list v'))
                 \<or> (\<exists>k\<in>set (key # keys). map_of params k = Some v' \<and> is_list v' \<and> k' = k @ ''[]'')"
        using c v True by auto
    qed
    then show ?thesis
      using True v o by simp
  next
    case False
    have sub: "set keys \<subseteq> dom (map_of params)"
      using Cons.prems(2) by simp
    have coll: "\<forall>k\<in>set keys. \<forall>v. map_of params k = Some v \<longrightarrow> is_list v \<longrightarrow>
           map_of params (k @ ''[]'') = None"
      using Cons.prems(4) by simp
    from Cons.IH [OF _ sub Cons.prems(3) coll] Cons.prems(1)
    obtain out where o: "rename_lists keys params = Inr out" "distinct (map fst out)"
      and c: "\<forall>k' v'. map_of out k' = Some v' \<longleftrightarrow>
                 (map_of params k' = Some v' \<and> (k' \<in> set keys \<longrightarrow> \<not> is_list v'))
                 \<or> (\<exists>k\<in>set keys. map_of params k = Some v' \<and> is_list v' \<and> k' = k @ ''[]'')"
      by auto
    have "\<forall>k' v'. map_of out k' = Some v' \<longleftrightarrow>
                 (map_of params k' = Some v' \<and> (k' \<in> set (key # keys) \<longrightarrow> \<not> is_list v'))
                 \<or> (\<exists>k\<in>set (key # keys). map_of params k = Some v' \<and> is_list v' \<and> k' = k @ ''[]'')"
      using c v False by auto
    then show ?thesis
      using False v o by simp
  qed
qed

lemma handle_response_frame:
  assumes "handle_response r s w = (res, s1, w1)"
  shows "api_base_url s1 = api_base_url s \<and> sent w1 = sent w \<and> server w1 = server w
         \<and> fs w1 = fs w"
  using assms
  by (auto simp add: handle_response_def Let_def time_sleep_def
      split: if_splits option.splits sum.splits)

lemma attempt_sent:
  assumes "attempt meth endpoint params hdrs fls s w = (res, s1, w1)"
  shows "api_base_url s1 = api_base_url s
         \<and> sent w1 = sent w @
             (if meth = ''GET'' \<or> meth = ''POST'' \<or> meth = ''DELETE''
              then [(clock w, the_request meth endpoint params hdrs fls s)] else [])"
proof (cases "meth = ''GET'' \<or> meth = ''POST'' \<or> meth = ''DELETE''")
  case True
  obtain took rep where srv: "server w (length (sent w)) = (took, rep)"
    by (cases "server w (length (sent w))")
  let ?w = "w\<lparr>clock := clock w + took,
      sent := sent w @ [(clock w, the_request meth endpoint params hdrs fls s)]\<rparr>"
  show ?thesis
  proof (cases rep)
    case ConnectionFailed
    then show ?thesis
      using assms True srv by (auto simp add: attempt_def http_def the_request_def)
  next
    case (Responded r)
    then have "handle_response r s ?w = (res, s1, w1)"
      using assms True srv by (auto simp add: attempt_def http_def the_request_def)
    from handle_response_frame [OF this] True show ?thesis
      by simp
  qed
next
  case False
  then show ?thesis
    using assms by (auto simp add: attempt_def)
qed

lemma request_loop_sent:
  assumes "request_loop meth endpoint params hdrs fls s w = Some y"
  shows "\<exists>ts. sent (snd (snd y)) =
              sent w @ map (\<lambda>t. (t, the_request meth endpoint params hdrs fls s)) ts
           \<and> (meth = ''GET'' \<or> meth = ''POST'' \<or> meth = ''DELETE'' \<longrightarrow> ts \<noteq> [])"
proof (rule request_loop.raw_induct
    [where P = "\<lambda>meth endpoint params hdrs fls s w y.
       \<exists>ts. sent (snd (snd y)) =
              sent w @ map (\<lambda>t. (t, the_request meth endpoint params hdrs fls s)) ts
           \<and> (meth = ''GET'' \<or> meth = ''POST'' \<or> meth = ''DELETE'' \<longrightarrow> ts \<noteq> [])",
     OF _ assms])
  fix loop meth endpoint params hdrs fls s w y
  assume IH: "\<And>meth endpoint params hdrs fls s w y.
      loop meth endpoint params hdrs fls s w = Some y \<Longrightarrow>
      \<exists>ts. sent (snd (snd y)) =
              sent w @ map (\<lambda>t. (t, the_request meth endpoint params hdrs fls s)) ts
           \<and> (meth = ''GET'' \<or> meth = ''POST'' \<or> meth = ''DELETE'' \<longrightarrow> ts \<noteq> [])"
    and step: "(case attempt meth endpoint params hdrs fls s w of
      (Inl e, s1, w1) \<Rightarrow> Some (Inl e, s1, w1)
      | (Inr (request_complete, resp), s1, w1) \<Rightarrow>
          if request_complete then Some (Inr resp, s1, w1)
          else loop meth endpoint params hdrs fls s1 w1) = Some y"
  let ?rq = "the_request meth endpoint params hdrs fls s"
  let ?legal = "meth = ''GET'' \<or> meth = ''POST'' \<or> meth = ''DELETE''"
  obtain res s1 w1 where a: "attempt meth endpoint params hdrs fls s w = (res, s1, w1)"
    by (cases "attempt meth endpoint params hdrs fls s w") auto
  from attempt_sent [OF a]
  have b: "api_base_url s1 = api_base_url s"
    and log: "sent w1 = sent w @ (if ?legal then [(clock w, ?rq)] else [])"
    by simp_all
  have rq: "the_request meth endpoint params hdrs fls s1 = ?rq"
    by (simp add: the_request_def b)
  have here: "\<exists>ts. sent w1 = sent w @ map (\<lambda>t. (t, ?rq)) ts \<and> (?legal \<longrightarrow> ts \<noteq> [])"
  proof (cases ?legal)
    case True
    then have "sent w1 = sent w @ map (\<lambda>t. (t, ?rq)) [clock w]"
      using log by simp
    then show ?thesis by blast
  next
    case False
    then have "sent w1 = sent w @ map (\<lambda>t. (t, ?rq)) []"
      using log by simp
    then show ?thesis using False by blast
  qed
  show "\<exists>ts. sent (snd (snd y)) = sent w @ map (\<lambda>t. (t, ?rq)) ts \<and> (?legal \<longrightarrow> ts \<noteq> [])"
  proof (cases res)
    case (Inl e)
    then have "y = (Inl e, s1, w1)"
      using step a by simp
    then show ?thesis using here by simp
  next
    case (Inr cr)
    obtain request_complete resp where cr: "cr = (request_complete, resp)"
      by (cases cr)
    show ?thesis
    proof (cases request_complete)
      case True
      then have "y = (Inr resp, s1, w1)"
        using step a Inr cr by simp
      then show ?thesis using here by simp
    next
      case False
      then have "loop meth endpoint params hdrs fls s1 w1 = Some y"
        using step a Inr cr by simp
      from IH [OF this]
      obtain ts where t: "sent (snd (snd y)) = sent w1 @ map (\<lambda>t. (t, ?rq)) ts"
        unfolding rq by blast
      from here obtain ts0 where t0: "sent w1 = sent w @ map (\<lambda>t. (t, ?rq)) ts0"
        and ne: "?legal \<longrightarrow> ts0 \<noteq> []"
        by blast
      have "sent (snd (snd y)) = sent w @ map (\<lambda>t. (t, ?rq)) (ts0 @ ts)"
        using t t0 by simp
      moreover have "?legal \<longrightarrow> ts0 @ ts \<noteq> []"
        using ne by simp
      ultimately show ?thesis by blast
    qed
  qed
qed

lemma log_in_params_to_file:
  "\<exists>params. log_in_params s username password scopes (Some path) = Inr params
     \<and> map_of params ''to_file'' = Some (PStr path)"
  by (cases "username = PNone"; cases "password = PNone";
      cases "is_list username"; cases "is_list password")
    (simp_all add: log_in_params_def generate_params_def AList.delete_eq update_conv')

lemma request_headers_error: "request_headers s = Inl e \<Longrightarrow> e = TypeError"
  by (auto simp add: request_headers_def split: pyval.splits)

lemma first_response_complete:
  assumes "pace_block s w = (None, w)"
    and "meth = ''GET'' \<or> meth = ''POST'' \<or> meth = ''DELETE''"
    and "request_headers s = Inr hdrs"
    and "server w (length (sent w)) = (took, Responded r)"
    and "complete_response r j"
  shows "\<exists>s1. api_request meth endpoint params fls s w =
           Some (Inr j, s1,
             w\<lparr>clock := clock w + took,
               sent := sent w @ [(clock w, the_request meth endpoint params hdrs fls s)]\<rparr>)"
proof -
  from attempt_complete [OF assms(2,4,5), of endpoint params hdrs fls s]
  obtain s1 where a: "attempt meth endpoint params hdrs fls s w =
           (Inr (True, j), s1,
            w\<lparr>clock := clock w + took,
              sent := sent w @ [(clock w, the_request meth endpoint params hdrs fls s)]\<rparr>)"
    by blast
  have "request_loop meth endpoint params hdrs fls s w =
           Some (Inr j, s1,
            w\<lparr>clock := clock w + took,
              sent := sent w @ [(clock w, the_request meth endpoint params hdrs fls s)]\<rparr>)"
    by (subst request_loop.simps) (simp add: a)
  then show ?thesis
    using assms(1,3) by (simp add: api_request_def)
qed

lemma token_run:
  "\<exists>s1 w1. api_request ''POST'' ''/oauth/token'' params [] login_session token_world
      = Some (Inr (PDict [(''access_token'', PStr ''tok''), (''scope'', PStr ''read'')]), s1, w1)"
proof -
  have "pace_block login_session token_world = (None, token_world)"
    by (simp add: pace_block_def login_session_def paced_session_def)
  moreover have "request_headers login_session = Inr None"
    by (simp add: request_headers_def login_session_def paced_session_def)
  moreover have "server token_world (length (sent token_world)) = (1 / 2, Responded token_response)"
    by (simp add: token_world_def quiet_world_def)
  moreover have "complete_response token_response
      (PDict [(''access_token'', PStr ''tok''), (''scope'', PStr ''read'')])"
    by (simp add: complete_response_def reaches_throttle_test_def token_response_def is_throttled_def)
  ultimately show ?thesis
    using first_response_complete [of login_session token_world "''POST''" None "1 / 2"
        token_response "PDict [(''access_token'', PStr ''tok''), (''scope'', PStr ''read'')]"
        "''/oauth/token''" params "[]"]
    by auto
qed

lemma readline_plain:
  assumes "CHR 0x0A \<notin> set line" and "CHR 0x0D \<notin> set line"
  shows "readline (line @ tail) = (case readline tail of (l, r) \<Rightarrow> (line @ l, r))"
  using assms
  by (induction line) (simp_all split: prod.splits)

lemma readline_ends:
  assumes "CHR 0x0A \<notin> set line" and "CHR 0x0D \<notin> set line" and "ends_line t rest"
  shows "readline (line @ t @ rest) = (line @ (if t = [] then [] else [CHR 0x0A]), rest)"
proof -
  have "readline (t @ rest) = (if t = [] then [] else [CHR 0x0A], rest)"
    using assms(3)
    by (cases rest) (auto simp add: ends_line_def)
  then show ?thesis
    by (simp add: readline_plain [OF assms(1,2)])
qed

lemma rstrip_newline: "rstrip (line @ [CHR 0x0A]) = rstrip line"
  by (simp add: rstrip_def is_space_def)

lemma rstrip_line_end: "rstrip (line @ (if t = [] then [] else [CHR 0x0A])) = rstrip line"
  by (simp add: rstrip_newline)

section \<open>Pacing before a request\<close>

text \<open>
  C1, as the code has it. In \<^verbatim>\<open>pace\<close> mode, when \<^verbatim>\<open>ratelimit_remaining\<close> is
  positive and small enough for \<^verbatim>\<open>float()\<close> (below \<open>2^1024 - 2^970\<close>) and the
  pace factor is not negative (its range is \<open>(0, 1]\<close>), the sleep before the request
  lasts \<open>pace_factor * ((reset_at - now) / remaining - (now - last_call_at))\<close>
  seconds as doubles compute it, every operation rounded, or nothing when that is
  negative: the block of lines 413 to 424 raises nothing and moves the clock by exactly
  that much, and \<^verbatim>\<open>__api_request\<close> goes on from there to the headers and the
  request loop. With \<open>remaining = 10\<close> and \<open>reset_at - now = 100\<close> the bracket is
  the double \<open>10 - elapsed\<close>. The rounding is any that keeps the order and leaves 0
  and 1 alone.
\<close>

theorem pace_sleep_formula:
  assumes "ratelimit_method s = ''pace''"
    and "0 < ratelimit_remaining s" and "ratelimit_remaining s < 2 ^ 1024 - 2 ^ 970"
    and "0 \<le> ratelimit_pacefactor s" and "double_rounding w"
  shows "pace_block s w =
           (None, w\<lparr>clock := clock w
              + max 0 (double w (ratelimit_pacefactor s * paced_wait s w))\<rparr>)
         \<and> api_request meth endpoint params fls s w =
           (case request_headers s of
              Inl e \<Rightarrow>
                Some (Inl e, s, w\<lparr>clock := clock w
                  + max 0 (double w (ratelimit_pacefactor s * paced_wait s w))\<rparr>)
            | Inr hdrs \<Rightarrow>
                request_loop meth endpoint params hdrs fls s
                  (w\<lparr>clock := clock w
                    + max 0 (double w (ratelimit_pacefactor s * paced_wait s w))\<rparr>))
         \<and> (ratelimit_remaining s = 10 \<and> double w (ratelimit_reset s - clock w) = 100
              \<and> double w 10 = 10 \<longrightarrow>
            paced_wait s w = double w (10 - double w (clock w - ratelimit_lastcall s)))"
proof -
  have mono: "double w x \<le> double w y" if "x \<le> y" for x y
    using assms(5) that by (simp add: double_rounding_def)
  have d0: "double w 0 = 0" and d1: "double w 1 = 1"
    using assms(5) by (simp_all add: double_rounding_def)
  let ?f = "double w (real_of_int (ratelimit_remaining s))"
  let ?rw = "paced_wait s w"
  let ?pf = "ratelimit_pacefactor s"
  have "\<not> 2 ^ 1024 - 2 ^ 970 \<le> \<bar>ratelimit_remaining s\<bar>"
    using assms(2,3) by linarith
  then have fl: "float_of_int w (ratelimit_remaining s) = Inr ?f"
    by (simp only: float_of_int_def if_False)
  have "1 \<le> real_of_int (ratelimit_remaining s)"
    using assms(2) by simp
  from mono [OF this] have "1 \<le> ?f"
    by (simp add: d1)
  then have nz: "?f \<noteq> 0"
    by simp
  have unfolded: "pace_block s w =
      (if ?rw > 0 then time_sleep (double w (?rw * ?pf)) w else (None, w))"
    using assms(1,2) nz by (simp add: pace_block_def fl Let_def paced_wait_def)
  have p: "pace_block s w = (None, w\<lparr>clock := clock w + max 0 (double w (?pf * ?rw))\<rparr>)"
  proof (cases "?rw > 0")
    case True
    then have "0 \<le> ?pf * ?rw"
      using assms(4) by simp
    from mono [OF this] have "0 \<le> double w (?pf * ?rw)"
      by (simp add: d0)
    then show ?thesis
      using True by (simp add: unfolded time_sleep_pos max_def mult.commute)
  next
    case False
    then have "?pf * ?rw \<le> 0"
      using assms(4) by (simp add: mult_nonneg_nonpos)
    from mono [OF this] have "double w (?pf * ?rw) \<le> 0"
      by (simp add: d0)
    then show ?thesis
      using False by (simp add: unfolded max_def)
  qed
  have particular: "ratelimit_remaining s = 10 \<and> double w (ratelimit_reset s - clock w) = 100
      \<and> double w 10 = 10 \<longrightarrow>
      paced_wait s w = double w (10 - double w (clock w - ratelimit_lastcall s))"
    by (simp add: paced_wait_def)
  have call: "api_request meth endpoint params fls s w =
           (case request_headers s of
              Inl e \<Rightarrow>
                Some (Inl e, s, w\<lparr>clock := clock w + max 0 (double w (?pf * ?rw))\<rparr>)
            | Inr hdrs \<Rightarrow>
                request_loop meth endpoint params hdrs fls s
                  (w\<lparr>clock := clock w + max 0 (double w (?pf * ?rw))\<rparr>))"
    unfolding api_request_def p by simp
  show ?thesis
    using p call particular by blast
qed

text \<open>
  With 10 calls left, the reset 100 seconds away, the last call 4 seconds ago and the
  factor 0.5, every value a double: the sleep is \<open>0.5 * (10 - 4) = 3\<close> seconds.
\<close>

theorem pace_sleep_formula_witness:
  "ratelimit_method (paced_session\<lparr>ratelimit_pacefactor := 1 / 2\<rparr>) = ''pace''
   \<and> ratelimit_remaining (paced_session\<lparr>ratelimit_pacefactor := 1 / 2\<rparr>) = 10
   \<and> ratelimit_reset (paced_session\<lparr>ratelimit_pacefactor := 1 / 2\<rparr>) = clock quiet_world + 100
   \<and> ratelimit_lastcall (paced_session\<lparr>ratelimit_pacefactor := 1 / 2\<rparr>) = clock quiet_world - 4
   \<and> double_rounding quiet_world
   \<and> pace_block (paced_session\<lparr>ratelimit_pacefactor := 1 / 2\<rparr>) quiet_world
       = (None, quiet_world\<lparr>clock := clock quiet_world + 3\<rparr>)"
proof -
  have r: "double_rounding quiet_world"
    by (simp add: double_rounding_def quiet_world_def)
  have "pace_block (paced_session\<lparr>ratelimit_pacefactor := 1 / 2\<rparr>) quiet_world
       = (None, quiet_world\<lparr>clock := clock quiet_world + 3\<rparr>)"
    using pace_sleep_formula [of "paced_session\<lparr>ratelimit_pacefactor := 1 / 2\<rparr>" quiet_world] r
    by (simp add: paced_session_def paced_wait_def quiet_world_def)
  then show ?thesis
    using r by (simp add: paced_session_def quiet_world_def)
qed

text \<open>
  The sleep is a double, and the formula in exact arithmetic need not be one. With 3
  calls left, the reset 100 seconds away, no time elapsed since the last call and the
  factor 0.9, the quotient \<open>100 / 3\<close> and the product are rounded, and the call
  sleeps \<open>30 + 2^-48\<close> seconds, which is not \<open>0.9 * (100 / 3 - 0) = 30\<close>.
\<close>

theorem pace_sleep_counterexample:
  "pace_block (paced_session\<lparr>ratelimit_remaining := 3, ratelimit_lastcall := 1000\<rparr>)
     rounding_world
     = (None, rounding_world\<lparr>clock := 1000 + (30 + 1 / 2 ^ 48)\<rparr>)
   \<and> ratelimit_pacefactor (paced_session\<lparr>ratelimit_remaining := 3, ratelimit_lastcall := 1000\<rparr>)
       = 9 / 10
   \<and> (30 + 1 / 2 ^ 48 :: real) \<noteq> 9 / 10 * ((1100 - 1000) / 3 - (1000 - 1000))"
  by (simp add: pace_block_def float_of_int_def time_sleep_def Let_def
      paced_session_def rounding_world_def quiet_world_def)

text \<open>
  C2. In \<^verbatim>\<open>pace\<close> mode with \<^verbatim>\<open>ratelimit_remaining == 0\<close> the call sleeps until
  \<^verbatim>\<open>ratelimit_reset\<close> when that lies ahead, and then, instead of issuing the
  request, raises \<^verbatim>\<open>UnboundLocalError\<close> for \<^verbatim>\<open>remaining_wait\<close>: nothing is
  sent.
\<close>

theorem pace_exhausted_raises:
  assumes "ratelimit_method s = ''pace''" and "ratelimit_remaining s = 0"
  shows "api_request meth endpoint params fls s w =
           Some (Inl (UnboundLocalError ''remaining_wait''), s,
                 w\<lparr>clock := max (clock w) (ratelimit_reset s)\<rparr>)"
  using assms
  by (simp add: api_request_def pace_block_def Let_def time_sleep_def max_def)

theorem pace_exhausted_raises_witness:
  "ratelimit_method (paced_session\<lparr>ratelimit_remaining := 0\<rparr>) = ''pace''
   \<and> ratelimit_remaining (paced_session\<lparr>ratelimit_remaining := 0\<rparr>) = 0
   \<and> api_request ''GET'' ''/api/v1/notifications'' [] []
        (paced_session\<lparr>ratelimit_remaining := 0\<rparr>) quiet_world =
      Some (Inl (UnboundLocalError ''remaining_wait''), paced_session\<lparr>ratelimit_remaining := 0\<rparr>,
            quiet_world\<lparr>clock := 1100\<rparr>)
   \<and> sent (quiet_world\<lparr>clock := 1100\<rparr>) = []"
  using pace_exhausted_raises [of "paced_session\<lparr>ratelimit_remaining := 0\<rparr>"
      "''GET''" "''/api/v1/notifications''" "[]" "[]" quiet_world]
  by (simp add: paced_session_def quiet_world_def)

section \<open>Throttled responses\<close>

text \<open>
  C4, as the code has it. Under \<^verbatim>\<open>ratelimit_method = "wait"\<close>, when the server
  answers the first \<open>n\<close> requests of a call with throttled responses and the next one
  with a response on whose decoded body the throttle test of line 480 evaluates, without
  raising, to false, the call returns the decoded JSON of that last response. It has
  issued \<open>n + 1\<close> requests, all of them the same request, and each retry was issued
  no earlier than the reset time that the throttled response before it declared.
  \<open>n\<close> is arbitrary: the number of retries has no bound. The claim's case, one
  throttled response and then a good one, is \<open>n = 1\<close>.
\<close>

theorem wait_retries_until_complete:
  assumes "ratelimit_method s = ''wait''"
    and "meth = ''GET'' \<or> meth = ''POST'' \<or> meth = ''DELETE''"
    and "request_headers s = Inr hdrs"
    and "\<forall>i<n. server w (length (sent w) + i) = (took i, Responded (rs i))
                \<and> throttled_response (rs i) (resets i)"
    and "server w (length (sent w) + n) = (tk, Responded r)"
    and "complete_response r j"
  shows "\<exists>s' w' ts. api_request meth endpoint params fls s w = Some (Inr j, s', w')
           \<and> sent w' = sent w @ map (\<lambda>t. (t, the_request meth endpoint params hdrs fls s)) ts
           \<and> length ts = Suc n
           \<and> (\<forall>i<n. resets i \<le> ts ! Suc i)"
proof -
  let ?rq = "the_request meth endpoint params hdrs fls s"
  from loop_prefix [of n s meth w took rs resets endpoint params hdrs fls] assms(1,2,4)
  obtain s1 w1 ts where run: "request_loop meth endpoint params hdrs fls s w =
             request_loop meth endpoint params hdrs fls s1 w1"
    and log: "sent w1 = sent w @ map (\<lambda>t. (t, ?rq)) ts"
    and len: "length ts = n" and srv: "server w1 = server w"
    and b: "api_base_url s1 = api_base_url s"
    and times: "\<forall>i<n. resets i \<le> (ts @ [clock w1]) ! Suc i"
    by blast
  have next_reply: "server w1 (length (sent w1)) = (tk, Responded r)"
    using assms(5) srv log len by simp
  from attempt_complete [OF assms(2) next_reply assms(6), of endpoint params hdrs fls s1]
  obtain s' where a: "attempt meth endpoint params hdrs fls s1 w1 =
      (Inr (True, j), s',
       w1\<lparr>clock := clock w1 + tk,
          sent := sent w1 @ [(clock w1, the_request meth endpoint params hdrs fls s1)]\<rparr>)"
    by blast
  let ?w' = "w1\<lparr>clock := clock w1 + tk, sent := sent w1 @ [(clock w1, ?rq)]\<rparr>"
  have rq: "the_request meth endpoint params hdrs fls s1 = ?rq"
    by (simp add: the_request_def b)
  have "request_loop meth endpoint params hdrs fls s1 w1 = Some (Inr j, s', ?w')"
    by (subst request_loop.simps) (simp add: a rq)
  then have "api_request meth endpoint params fls s w = Some (Inr j, s', ?w')"
    using assms(1,3) run by (simp add: api_request_def pace_block_def)
  moreover have "sent ?w' = sent w @ map (\<lambda>t. (t, ?rq)) (ts @ [clock w1])"
    using log by simp
  moreover have "length (ts @ [clock w1]) = Suc n"
    using len by simp
  ultimately show ?thesis
    using times by blast
qed

theorem wait_retries_until_complete_witness:
  "ratelimit_method (paced_session\<lparr>ratelimit_method := ''wait''\<rparr>) = ''wait''
   \<and> request_headers (paced_session\<lparr>ratelimit_method := ''wait''\<rparr>)
       = Inr (Some [(''Authorization'', ''Bearer token'')])
   \<and> server throttling_world 0 = (1 / 2, Responded throttle_response)
   \<and> throttled_response throttle_response 1100
   \<and> server throttling_world 1 = (1 / 2, Responded plain_response)
   \<and> complete_response plain_response (PList [])
   \<and> (\<exists>s' w' ts.
        api_request ''GET'' ''/api/v1/notifications'' [] []
          (paced_session\<lparr>ratelimit_method := ''wait''\<rparr>) throttling_world
          = Some (Inr (PList []), s', w')
        \<and> map fst (sent w') = ts \<and> length ts = 2 \<and> 1100 \<le> ts ! 1)"
  using wait_retries_until_complete [where s = "paced_session\<lparr>ratelimit_method := ''wait''\<rparr>"
      and meth = "''GET''" and hdrs = "Some [(''Authorization'', ''Bearer token'')]"
      and n = 1 and w = throttling_world and took = "\<lambda>i. 1 / 2"
      and rs = "\<lambda>i. throttle_response" and resets = "\<lambda>i. 1100" and tk = "1 / 2"
      and r = plain_response and j = "PList []" and endpoint = "''/api/v1/notifications''"
      and params = "[]" and fls = "[]"]
  by (auto simp add: paced_session_def throttling_world_def quiet_world_def request_headers_def
      throttle_response_def plain_response_def throttled_response_def complete_response_def
      reaches_throttle_test_def is_throttled_def comp_def)

text \<open>
  A second response that is not throttled need not pass the throttle test: on the body
  \<^verbatim>\<open>null\<close> the test \<^verbatim>\<open>'error' in response\<close> raises \<^verbatim>\<open>TypeError\<close>, and
  the call that waited for the reset and retried ends with that exception instead of the
  decoded data.
\<close>

theorem wait_null_body_counterexample:
  "server null_world 0 = (1 / 2, Responded throttle_response)
   \<and> throttled_response throttle_response 1100
   \<and> server null_world 1 = (1 / 2, Responded (plain_response\<lparr>json := Some PNone\<rparr>))
   \<and> is_throttled PNone = Inl TypeError
   \<and> map_option fst (api_request ''GET'' ''/api/v1/notifications'' [] []
        (paced_session\<lparr>ratelimit_method := ''wait''\<rparr>) null_world)
      = Some (Inl TypeError)"
proof -
  have run: "map_option fst (api_request ''GET'' ''/api/v1/notifications'' [] []
        (paced_session\<lparr>ratelimit_method := ''wait''\<rparr>) null_world)
      = Some (Inl TypeError)"
    apply (simp add: api_request_def pace_block_def request_headers_def paced_session_def
        null_world_def quiet_world_def)
    apply (subst request_loop.simps)
    apply (simp add: attempt_def http_def handle_response_def throttle_response_def
        is_throttled_def time_sleep_def)
    apply (subst request_loop.simps)
    apply (simp add: attempt_def http_def handle_response_def plain_response_def
        is_throttled_def)
    done
  show ?thesis
    by (simp add: run)
      (simp add: null_world_def quiet_world_def throttled_response_def reaches_throttle_test_def
        throttle_response_def is_throttled_def)
qed

text \<open>
  C5. Under \<^verbatim>\<open>ratelimit_method = "throw"\<close>, a throttled response makes the call
  raise \<^verbatim>\<open>MastodonRatelimitError\<close>; the log of requests has grown by exactly
  the one request that was answered, so nothing was retried.
\<close>

theorem throw_raises_once:
  assumes "ratelimit_method s = ''throw''"
    and "meth = ''GET'' \<or> meth = ''POST'' \<or> meth = ''DELETE''"
    and "request_headers s = Inr hdrs"
    and "server w (length (sent w)) = (took, Responded r)"
    and "throttled_response r reset"
  shows "\<exists>s'. api_request meth endpoint params fls s w =
           Some (Inl (MastodonRatelimitError ''Hit rate limit.''), s',
                 w\<lparr>clock := clock w + took,
                   sent := sent w @ [(clock w, the_request meth endpoint params hdrs fls s)]\<rparr>)"
proof -
  from attempt_throttled_throw [OF assms(1,2,4,5), of endpoint params hdrs fls]
  obtain s' where a: "attempt meth endpoint params hdrs fls s w =
           (Inl (MastodonRatelimitError ''Hit rate limit.''), s',
            w\<lparr>clock := clock w + took,
              sent := sent w @ [(clock w, the_request meth endpoint params hdrs fls s)]\<rparr>)"
    by blast
  have "request_loop meth endpoint params hdrs fls s w =
           Some (Inl (MastodonRatelimitError ''Hit rate limit.''), s',
            w\<lparr>clock := clock w + took,
              sent := sent w @ [(clock w, the_request meth endpoint params hdrs fls s)]\<rparr>)"
    by (subst request_loop.simps) (simp add: a)
  then show ?thesis
    using assms(1,3) by (simp add: api_request_def pace_block_def)
qed

theorem throw_raises_once_witness:
  "ratelimit_method (paced_session\<lparr>ratelimit_method := ''throw''\<rparr>) = ''throw''
   \<and> request_headers (paced_session\<lparr>ratelimit_method := ''throw''\<rparr>)
       = Inr (Some [(''Authorization'', ''Bearer token'')])
   \<and> server throttling_world 0 = (1 / 2, Responded throttle_response)
   \<and> throttled_response throttle_response 1100
   \<and> (\<exists>s'. api_request ''GET'' ''/api/v1/notifications'' [] []
          (paced_session\<lparr>ratelimit_method := ''throw''\<rparr>) throttling_world
        = Some (Inl (MastodonRatelimitError ''Hit rate limit.''), s',
             throttling_world\<lparr>clock := 1000 + 1 / 2,
               sent := [(1000, \<lparr>http_method = ''GET'',
                  url = ''https://mastodon.social/api/v1/notifications'', data = [],
                  headers = Some [(''Authorization'', ''Bearer token'')], files = []\<rparr>)]\<rparr>))"
  using throw_raises_once [where s = "paced_session\<lparr>ratelimit_method := ''throw''\<rparr>"
      and meth = "''GET''" and hdrs = "Some [(''Authorization'', ''Bearer token'')]"
      and w = throttling_world and took = "1 / 2" and r = throttle_response and reset = 1100
      and endpoint = "''/api/v1/notifications''" and params = "[]" and fls = "[]"]
  by (auto simp add: paced_session_def throttling_world_def quiet_world_def request_headers_def
      throttle_response_def throttled_response_def the_request_def
      reaches_throttle_test_def is_throttled_def)

section \<open>Responses that cannot be used\<close>

text \<open>
  C7, as the code has it. Whichever response of a call it is (the one after \<open>n\<close>
  throttled ones), a status 404 makes the call raise
  \<^verbatim>\<open>MastodonAPIError('Endpoint not found.')\<close>, a status 500
  \<^verbatim>\<open>MastodonAPIError('General API problem.')\<close>, and a body that does not decode
  under any other status \<^verbatim>\<open>MastodonAPIError\<close> with the message
  \<^verbatim>\<open>Could not parse response as JSON, respose code was\<close> followed by the status
  code in decimal. The messages are the code's: the first two end in a full stop, and
  the third does not read \<^verbatim>\<open>status was\<close>.
\<close>

theorem unusable_response_raises:
  assumes "pace_block s w = (None, w0)"
    and "request_headers s = Inr hdrs"
    and "meth = ''GET'' \<or> meth = ''POST'' \<or> meth = ''DELETE''"
    and "n = 0 \<or> ratelimit_method s = ''wait'' \<or> ratelimit_method s = ''pace''"
    and "\<forall>i<n. server w (length (sent w) + i) = (took i, Responded (rs i))
                \<and> throttled_response (rs i) (resets i)"
    and "server w (length (sent w) + n) = (tk, Responded r)"
    and "status_code r = 404 \<or> status_code r = 500 \<or> json r = None"
  shows "\<exists>s' w'. api_request meth endpoint params fls s w =
           Some (Inl (MastodonAPIError
              (if status_code r = 404 then ''Endpoint not found.''
               else if status_code r = 500 then ''General API problem.''
               else ''Could not parse response as JSON, respose code was '' @ str_int (status_code r))),
              s', w')
         \<and> length (sent w') = length (sent w) + Suc n"
proof -
  let ?rq = "the_request meth endpoint params hdrs fls s"
  from pace_block_frame [OF assms(1)]
  have fr: "server w0 = server w" "sent w0 = sent w" by simp_all
  have thr0: "\<forall>i<n. server w0 (length (sent w0) + i) = (took i, Responded (rs i))
                \<and> throttled_response (rs i) (resets i)"
    using assms(5) fr by simp
  from loop_prefix [OF assms(4) assms(3) thr0, of endpoint params hdrs fls]
  obtain s1 w1 ts where run: "request_loop meth endpoint params hdrs fls s w0 =
             request_loop meth endpoint params hdrs fls s1 w1"
    and log: "sent w1 = sent w0 @ map (\<lambda>t. (t, ?rq)) ts"
    and len: "length ts = n" and srv: "server w1 = server w0"
    by blast
  have next_reply: "server w1 (length (sent w1)) = (tk, Responded r)"
    using assms(6) srv log len fr by simp
  note a = attempt_unusable [OF assms(3) next_reply assms(7), of endpoint params hdrs fls s1]
  let ?w' = "w1\<lparr>clock := clock w1 + tk,
      sent := sent w1 @ [(clock w1, the_request meth endpoint params hdrs fls s1)]\<rparr>"
  have "request_loop meth endpoint params hdrs fls s1 w1 =
      Some (Inl (MastodonAPIError
              (if status_code r = 404 then ''Endpoint not found.''
               else if status_code r = 500 then ''General API problem.''
               else ''Could not parse response as JSON, respose code was '' @ str_int (status_code r))),
            s1, ?w')"
    by (subst request_loop.simps) (simp only: a prod.case sum.case)
  then have "api_request meth endpoint params fls s w =
      Some (Inl (MastodonAPIError
              (if status_code r = 404 then ''Endpoint not found.''
               else if status_code r = 500 then ''General API problem.''
               else ''Could not parse response as JSON, respose code was '' @ str_int (status_code r))),
            s1, ?w')"
    using assms(1,2) run by (simp add: api_request_def)
  moreover have "length (sent ?w') = length (sent w) + Suc n"
    using log len fr by simp
  ultimately show ?thesis by blast
qed

theorem unusable_response_raises_witness:
  "pace_block (paced_session\<lparr>ratelimit_method := ''wait''\<rparr>) (failing_world 1 404)
     = (None, failing_world 1 404)
   \<and> request_headers (paced_session\<lparr>ratelimit_method := ''wait''\<rparr>)
       = Inr (Some [(''Authorization'', ''Bearer token'')])
   \<and> server (failing_world 1 404) 0 = (1 / 2, Responded throttle_response)
   \<and> throttled_response throttle_response 1100
   \<and> server (failing_world 1 404) 1 =
       (1 / 2, Responded \<lparr>status_code = 404, json = None, x_ratelimit_remaining = Inr 9,
           x_ratelimit_limit = Inr 150, x_ratelimit_reset = Inr 1100\<rparr>)
   \<and> (\<exists>s' w'.
        api_request ''GET'' ''/api/v1/notifications'' [] []
          (paced_session\<lparr>ratelimit_method := ''wait''\<rparr>) (failing_world 1 404)
          = Some (Inl (MastodonAPIError ''Endpoint not found.''), s', w')
        \<and> length (sent w') = 2)"
  using unusable_response_raises [where s = "paced_session\<lparr>ratelimit_method := ''wait''\<rparr>"
      and meth = "''GET''" and hdrs = "Some [(''Authorization'', ''Bearer token'')]"
      and n = 1 and w = "failing_world 1 404" and ?w0.0 = "failing_world 1 404"
      and took = "\<lambda>i. 1 / 2"
      and rs = "\<lambda>i. throttle_response" and resets = "\<lambda>i. 1100" and tk = "1 / 2"
      and r = "\<lparr>status_code = 404, json = None, x_ratelimit_remaining = Inr 9,
           x_ratelimit_limit = Inr 150, x_ratelimit_reset = Inr 1100\<rparr>"
      and endpoint = "''/api/v1/notifications''" and params = "[]" and fls = "[]"]
  by (auto simp add: paced_session_def failing_world_def quiet_world_def request_headers_def
      throttle_response_def throttled_response_def pace_block_def
      reaches_throttle_test_def is_throttled_def)

text \<open>
  The claim's messages are not the code's: against a server whose first answer has the
  status 404, 500, or 200 with a body that is not JSON, a call in \<^verbatim>\<open>wait\<close> mode
  raises with the messages below.
\<close>

theorem api_error_messages_counterexample:
  "map_option fst (api_request ''GET'' ''/api/v1/notifications'' [] []
      (paced_session\<lparr>ratelimit_method := ''wait''\<rparr>) (failing_world 0 404))
     = Some (Inl (MastodonAPIError ''Endpoint not found.''))
   \<and> map_option fst (api_request ''GET'' ''/api/v1/notifications'' [] []
      (paced_session\<lparr>ratelimit_method := ''wait''\<rparr>) (failing_world 0 404))
     \<noteq> Some (Inl (MastodonAPIError ''Endpoint not found''))
   \<and> map_option fst (api_request ''GET'' ''/api/v1/notifications'' [] []
      (paced_session\<lparr>ratelimit_method := ''wait''\<rparr>) (failing_world 0 500))
     = Some (Inl (MastodonAPIError ''General API problem.''))
   \<and> map_option fst (api_request ''GET'' ''/api/v1/notifications'' [] []
      (paced_session\<lparr>ratelimit_method := ''wait''\<rparr>) (failing_world 0 500))
     \<noteq> Some (Inl (MastodonAPIError ''General API problem''))
   \<and> map_option fst (api_request ''GET'' ''/api/v1/notifications'' [] []
      (paced_session\<lparr>ratelimit_method := ''wait''\<rparr>) (failing_world 0 200))
     = Some (Inl (MastodonAPIError ''Could not parse response as JSON, respose code was 200''))
   \<and> map_option fst (api_request ''GET'' ''/api/v1/notifications'' [] []
      (paced_session\<lparr>ratelimit_method := ''wait''\<rparr>) (failing_world 0 200))
     \<noteq> Some (Inl (MastodonAPIError ''Could not parse response as JSON, status was 200''))"
proof -
  have not_found: "map_option fst (api_request ''GET'' ''/api/v1/notifications'' [] []
      (paced_session\<lparr>ratelimit_method := ''wait''\<rparr>) (failing_world 0 404))
     = Some (Inl (MastodonAPIError ''Endpoint not found.''))"
    apply (simp add: api_request_def pace_block_def request_headers_def paced_session_def
        failing_world_def quiet_world_def)
    apply (subst request_loop.simps)
    apply (simp add: attempt_def http_def handle_response_def)
    done
  have general: "map_option fst (api_request ''GET'' ''/api/v1/notifications'' [] []
      (paced_session\<lparr>ratelimit_method := ''wait''\<rparr>) (failing_world 0 500))
     = Some (Inl (MastodonAPIError ''General API problem.''))"
    apply (simp add: api_request_def pace_block_def request_headers_def paced_session_def
        failing_world_def quiet_world_def)
    apply (subst request_loop.simps)
    apply (simp add: attempt_def http_def handle_response_def)
    done
  have parse: "map_option fst (api_request ''GET'' ''/api/v1/notifications'' [] []
      (paced_session\<lparr>ratelimit_method := ''wait''\<rparr>) (failing_world 0 200))
     = Some (Inl (MastodonAPIError ''Could not parse response as JSON, respose code was 200''))"
    apply (simp add: api_request_def pace_block_def request_headers_def paced_session_def
        failing_world_def quiet_world_def)
    apply (subst request_loop.simps)
    apply (simp add: attempt_def http_def handle_response_def str_int_def)
    done
  show ?thesis
    unfolding not_found general parse by simp
qed

section \<open>Building the parameters\<close>

text \<open>
  C8, as the code has it. When the argument mapping is a dict that holds the key
  \<^verbatim>\<open>self\<close> (every \<^verbatim>\<open>locals()\<close> of a method does) and no kept list-valued
  key \<open>k\<close> stands beside a kept key \<open>k + "[]"\<close>, \<^verbatim>\<open>__generate_params\<close>
  returns a dict that holds exactly the kept entries of the input: each kept key whose
  value is a \<^verbatim>\<open>list\<close> (line 506 tests \<^verbatim>\<open>isinstance(params[key], list)\<close>)
  under the name \<open>k + "[]"\<close>, each other kept key, a tuple included, under its own
  name, the values unchanged.
\<close>

theorem generate_params_exact:
  assumes "distinct (map fst params)" and "map_of params ''self'' \<noteq> None"
    and "\<forall>k v. kept params exclude k v \<longrightarrow> is_list v \<longrightarrow>
           (\<forall>v'. \<not> kept params exclude (k @ ''[]'') v')"
  shows "\<exists>out. generate_params params exclude = Inr out \<and> distinct (map fst out)
           \<and> (\<forall>k' v. map_of out k' = Some v \<longleftrightarrow>
                 (\<exists>k. kept params exclude k v \<and> k' = (if is_list v then k @ ''[]'' else k)))"
proof -
  let ?p1 = "AList.delete ''self'' params"
  have d1: "distinct (map fst ?p1)"
    using assms(1) by (rule distinct_delete)
  have m1: "map_of ?p1 = (map_of params)(''self'' := None)"
    by (rule delete_conv')
  have k1: "set (map fst ?p1) \<subseteq> dom (map_of ?p1)"
    by (simp add: dom_map_of_conv_image_fst)
  from drop_absent_map [OF d1 k1 d1, of exclude]
  obtain p2 where p2: "drop_absent (map fst ?p1) exclude ?p1 = Inr p2"
    and d2: "distinct (map fst p2)"
    and m2: "map_of p2 =
               (\<lambda>k. if k \<in> set (map fst ?p1) \<and> (map_of ?p1 k = Some PNone \<or> k \<in> set exclude)
                    then None else map_of ?p1 k)"
    by blast
  have in1: "k \<in> fst ` set ?p1 \<longleftrightarrow> map_of ?p1 k \<noteq> None" for k
    using dom_map_of_conv_image_fst [of ?p1] by (auto simp add: dom_def)
  have kept2: "map_of p2 k = Some v \<longleftrightarrow> kept params exclude k v" for k v
    by (auto simp add: m2 in1 m1 kept_def)
  have k2: "set (map fst p2) \<subseteq> dom (map_of p2)"
    by (simp add: dom_map_of_conv_image_fst)
  have coll: "\<forall>k\<in>set (map fst p2). \<forall>v. map_of p2 k = Some v \<longrightarrow> is_list v \<longrightarrow>
           map_of p2 (k @ ''[]'') = None"
  proof (intro ballI allI impI)
    fix k v assume "map_of p2 k = Some v" and "is_list v"
    then have "\<forall>v'. \<not> kept params exclude (k @ ''[]'') v'"
      using assms(3) kept2 by blast
    then have "\<forall>v'. map_of p2 (k @ ''[]'') \<noteq> Some v'"
      using kept2 by simp
    then show "map_of p2 (k @ ''[]'') = None"
      by (cases "map_of p2 (k @ ''[]'')") auto
  qed
  from rename_lists_map [OF d2 k2 d2 coll]
  obtain out where out: "rename_lists (map fst p2) p2 = Inr out"
    and d3: "distinct (map fst out)"
    and m3: "\<forall>k' v. map_of out k' = Some v \<longleftrightarrow>
                 (map_of p2 k' = Some v \<and> (k' \<in> set (map fst p2) \<longrightarrow> \<not> is_list v))
                 \<or> (\<exists>k\<in>set (map fst p2). map_of p2 k = Some v \<and> is_list v \<and> k' = k @ ''[]'')"
    by blast
  have in2: "k \<in> set (map fst p2) \<longleftrightarrow> (\<exists>v. kept params exclude k v)" for k
  proof -
    have "k \<in> set (map fst p2) \<longleftrightarrow> k \<in> dom (map_of p2)"
      by (simp add: dom_map_of_conv_image_fst)
    also have "\<dots> \<longleftrightarrow> (\<exists>v. map_of p2 k = Some v)"
      by auto
    finally show ?thesis
      by (simp only: kept2)
  qed
  have "map_of out k' = Some v \<longleftrightarrow>
          (\<exists>k. kept params exclude k v \<and> k' = (if is_list v then k @ ''[]'' else k))" for k' v
  proof -
    have "map_of out k' = Some v \<longleftrightarrow>
            (kept params exclude k' v \<and> ((\<exists>v'. kept params exclude k' v') \<longrightarrow> \<not> is_list v))
            \<or> (\<exists>k. (\<exists>v'. kept params exclude k v') \<and> kept params exclude k v \<and> is_list v
                  \<and> k' = k @ ''[]'')"
      using m3 [rule_format, of k' v] unfolding Bex_def in2 kept2 .
    also have "\<dots> \<longleftrightarrow>
          (\<exists>k. kept params exclude k v \<and> k' = (if is_list v then k @ ''[]'' else k))"
      by (cases "is_list v") auto
    finally show ?thesis .
  qed
  moreover have "generate_params params exclude = Inr out"
    using assms(2) p2 out by (auto simp add: generate_params_def Let_def)
  ultimately show ?thesis
    using d3 by blast
qed

theorem generate_params_exact_witness:
  "distinct (map fst timeline_locals) \<and> map_of timeline_locals ''self'' \<noteq> None
   \<and> kept timeline_locals [''timeline''] ''media_ids'' (PList [PNum 1, PNum 2])
   \<and> (\<forall>v'. \<not> kept timeline_locals [''timeline''] ''media_ids[]'' v')
   \<and> (\<exists>out. generate_params timeline_locals [''timeline''] = Inr out
        \<and> out = [(''since_id'', PNum 3), (''media_ids[]'', PList [PNum 1, PNum 2])]
        \<and> distinct (map fst out)
        \<and> (\<forall>k' v. map_of out k' = Some v \<longleftrightarrow>
              (\<exists>k. kept timeline_locals [''timeline''] k v
                 \<and> k' = (if is_list v then k @ ''[]'' else k))))"
proof -
  have d: "distinct (map fst timeline_locals)"
    by (simp add: timeline_locals_def)
  have s: "map_of timeline_locals ''self'' \<noteq> None"
    by (simp add: timeline_locals_def)
  have c: "\<forall>k v. kept timeline_locals [''timeline''] k v \<longrightarrow> is_list v \<longrightarrow>
           (\<forall>v'. \<not> kept timeline_locals [''timeline''] (k @ ''[]'') v')"
    by (auto simp add: kept_def timeline_locals_def split: if_splits)
  have k: "kept timeline_locals [''timeline''] ''media_ids'' (PList [PNum 1, PNum 2])"
    by (simp add: kept_def timeline_locals_def)
  have n: "\<forall>v'. \<not> kept timeline_locals [''timeline''] ''media_ids[]'' v'"
    by (simp add: kept_def timeline_locals_def)
  have ev: "generate_params timeline_locals [''timeline'']
        = Inr [(''since_id'', PNum 3), (''media_ids[]'', PList [PNum 1, PNum 2])]"
    by (simp add: generate_params_def AList.delete_eq timeline_locals_def)
  from generate_params_exact [OF d s c] ev d s k n
  show ?thesis by auto
qed

text \<open>
  A tuple is a sequence and not a \<^verbatim>\<open>list\<close>: the arguments of
  \<^verbatim>\<open>status_post(status, media_ids = (1, 2))\<close> keep the tuple under the name
  \<^verbatim>\<open>media_ids\<close>, not under \<^verbatim>\<open>media_ids[]\<close>.
\<close>

theorem generate_params_counterexample:
  "generate_params status_post_locals []
     = Inr [(''status'', PStr ''hi''), (''media_ids'', PTuple [PNum 1, PNum 2])]"
  by (simp add: generate_params_def AList.delete_eq status_post_locals_def)

section \<open>Construction\<close>

text \<open>
  C3. Whatever \<^verbatim>\<open>ratelimit_pacefactor\<close> is passed to \<^verbatim>\<open>__init__\<close>, the
  session it builds has the pace factor 0.9: line 95 assigns the constant, not the
  argument.
\<close>

theorem init_pacefactor_constant:
  "map_sum id ratelimit_pacefactor
     (init cid (Some secret) token base_url debug meth pacefactor w) = Inr (9 / 10)"
  by (simp add: init_def Let_def split: option.splits prod.splits)

text \<open>
  C9, as the code has it. When \<^verbatim>\<open>client_id\<close> names a file whose text starts
  with two lines, each ended by a line feed, a carriage return, the two together or the
  end of the file, the session's \<^verbatim>\<open>client_id\<close> is the first line and its
  \<^verbatim>\<open>client_secret\<close> the second, each without its trailing whitespace
  (\<^verbatim>\<open>rstrip()\<close> drops the newline and every whitespace character before it); the
  \<^verbatim>\<open>client_secret\<close> argument plays no part.
\<close>

theorem init_reads_client_file:
  assumes "fs w cid = Some (line1 @ t1 @ line2 @ t2 @ rest)"
    and "CHR 0x0A \<notin> set line1" and "CHR 0x0D \<notin> set line1"
    and "CHR 0x0A \<notin> set line2" and "CHR 0x0D \<notin> set line2"
    and "ends_line t1 (line2 @ t2 @ rest)" and "ends_line t2 rest"
  shows "\<exists>s. init cid secret token base_url debug meth pacefactor w = Inr s
           \<and> client_id s = rstrip line1 \<and> client_secret s = Some (rstrip line2)"
proof -
  have first: "readline (line1 @ t1 @ line2 @ t2 @ rest)
      = (line1 @ (if t1 = [] then [] else [CHR 0x0A]), line2 @ t2 @ rest)"
    using readline_ends [OF assms(2,3,6)] by simp
  have second: "readline (line2 @ t2 @ rest) = (line2 @ (if t2 = [] then [] else [CHR 0x0A]), rest)"
    using readline_ends [OF assms(4,5,7)] by simp
  show ?thesis
    using assms(1)
    by (simp add: init_def Let_def first second rstrip_line_end split: option.splits)
qed

theorem init_reads_client_file_witness:
  "fs (secret_world (''abc'' @ [CHR 0x0A] @ ''xyz'' @ [CHR 0x0A] @ [])) ''app.secret''
     = Some (''abc'' @ [CHR 0x0A] @ ''xyz'' @ [CHR 0x0A] @ [])
   \<and> ends_line [CHR 0x0A] (''xyz'' @ [CHR 0x0A] @ []) \<and> ends_line [CHR 0x0A] []
   \<and> (\<exists>s. init ''app.secret'' (Some ''explicit'') None ''https://mastodon.social'' False ''wait''
            (9 / 10) (secret_world (''abc'' @ [CHR 0x0A] @ ''xyz'' @ [CHR 0x0A] @ [])) = Inr s
          \<and> client_id s = ''abc'' \<and> client_secret s = Some ''xyz'')
   \<and> ends_line [CHR 0x0D] (''xyz'' @ [CHR 0x0A] @ [])
   \<and> (\<exists>s. init ''app.secret'' (Some ''explicit'') None ''https://mastodon.social'' False ''wait''
            (9 / 10) (secret_world (''abc'' @ [CHR 0x0D] @ ''xyz'' @ [CHR 0x0A] @ [])) = Inr s
          \<and> client_id s = ''abc'' \<and> client_secret s = Some ''xyz'')"
  using init_reads_client_file [of "secret_world (''abc'' @ [CHR 0x0A] @ ''xyz'' @ [CHR 0x0A] @ [])"
      "''app.secret''" "''abc''" "[CHR 0x0A]" "''xyz''" "[CHR 0x0A]" "[]" "Some ''explicit''" None
      "''https://mastodon.social''" False "''wait''" "9 / 10"]
    init_reads_client_file [of "secret_world (''abc'' @ [CHR 0x0D] @ ''xyz'' @ [CHR 0x0A] @ [])"
      "''app.secret''" "''abc''" "[CHR 0x0D]" "''xyz''" "[CHR 0x0A]" "[]" "Some ''explicit''" None
      "''https://mastodon.social''" False "''wait''" "9 / 10"]
  by (simp add: secret_world_def rstrip_def is_space_def ends_line_def)

text \<open>
  A first line \<^verbatim>\<open>"abc "\<close> that ends in a blank gives the client id
  \<^verbatim>\<open>"abc"\<close>, not the line without its newline.
\<close>

theorem init_rstrip_counterexample:
  "map_sum id client_id
     (init ''app.secret'' None None ''https://mastodon.social'' False ''wait'' (9 / 10)
        (secret_world (''abc '' @ CHR 0x0A # ''xyz'' @ CHR 0x0A # []))) = Inr ''abc''
   \<and> strip_newline (fst (readline (''abc '' @ CHR 0x0A # ''xyz'' @ CHR 0x0A # []))) = ''abc ''"
  by (simp add: init_def secret_world_def rstrip_def is_space_def strip_newline_def Let_def)

section \<open>Logging in\<close>

text \<open>
  C6, as the code has it. When the token request returns a dict with an
  \<^verbatim>\<open>access_token\<close> and a string \<^verbatim>\<open>scope\<close>, \<^verbatim>\<open>log_in\<close> sets the
  session's \<^verbatim>\<open>access_token\<close> to the returned token before it compares the
  scopes, so the token is set whether or not they match. When the sorted, space-joined
  requested scopes differ from the sorted, space-joined granted ones, it raises
  \<^verbatim>\<open>MastodonAPIError\<close> with a message that names the granted and then the
  requested scopes, and writes no file; when they are equal and the token is a string,
  it returns the token, unless \<^verbatim>\<open>to_file\<close> is given and cannot be opened for
  writing: then the error of \<^verbatim>\<open>open\<close> is raised.
\<close>

theorem log_in_sets_token_first:
  assumes "log_in_params s username password scopes to_file = Inr params"
    and "api_request ''POST'' ''/oauth/token'' params [] s w = Some (Inr resp, s1, w1)"
    and "subscript resp ''access_token'' = Inr token"
    and "subscript resp ''scope'' = Inr (PStr granted)"
  shows "\<exists>res w'. log_in username password scopes to_file s w
             = Some (res, s1\<lparr>access_token := token\<rparr>, w')
           \<and> (space_join (sort scopes) \<noteq> space_join (sort (split_space granted)) \<longrightarrow>
                res = Inl (MastodonAPIError
                  (''Granted scopes '' @ [CHR 0x22] @ space_join (sort (split_space granted))
                   @ [CHR 0x22] @ '' differ from requested scopes '' @ [CHR 0x22]
                   @ space_join (sort scopes) @ [CHR 0x22] @ ''.''))
                \<and> w' = w1)
           \<and> (space_join (sort scopes) = space_join (sort (split_space granted))
                \<and> (\<exists>t. token = PStr t) \<longrightarrow>
                (case to_file of
                   None \<Rightarrow> res = Inr token
                 | Some path \<Rightarrow>
                     (case open_error w1 path of
                        None \<Rightarrow> res = Inr token
                      | Some e \<Rightarrow> res = Inl e \<and> w' = w1)))"
  using assms
  by (auto simp add: log_in_def Let_def split: option.splits pyval.splits)

theorem log_in_sets_token_first_witness:
  "\<exists>s' w'. log_in (PStr ''me@example.com'') (PStr ''secret'') [''read'', ''write''] None
        login_session token_world
      = Some (Inl (MastodonAPIError
           (''Granted scopes '' @ [CHR 0x22] @ ''read'' @ [CHR 0x22]
            @ '' differ from requested scopes '' @ [CHR 0x22] @ ''read write'' @ [CHR 0x22] @ ''.'')),
          s', w')
      \<and> access_token s' = PStr ''tok''"
proof -
  obtain params where p: "log_in_params login_session (PStr ''me@example.com'') (PStr ''secret'')
      [''read'', ''write''] None = Inr params"
    by (simp add: log_in_params_def generate_params_def AList.delete_eq)
  from token_run [of params] obtain s1 w1 where
    call: "api_request ''POST'' ''/oauth/token'' params [] login_session token_world
      = Some (Inr (PDict [(''access_token'', PStr ''tok''), (''scope'', PStr ''read'')]), s1, w1)"
    by blast
  have t: "subscript (PDict [(''access_token'', PStr ''tok''), (''scope'', PStr ''read'')])
      ''access_token'' = Inr (PStr ''tok'')"
    by (simp add: subscript_def)
  have g: "subscript (PDict [(''access_token'', PStr ''tok''), (''scope'', PStr ''read'')])
      ''scope'' = Inr (PStr ''read'')"
    by (simp add: subscript_def)
  from log_in_sets_token_first [OF p call t g]
  show ?thesis
    by auto
qed

text \<open>
  Requesting \<^verbatim>\<open>read write\<close> and being granted \<^verbatim>\<open>read\<close>: the call raises,
  and the session that had no token now holds \<^verbatim>\<open>tok\<close>.
\<close>

theorem log_in_scope_mismatch_counterexample:
  "map_option (\<lambda>(res, s', w'). (res, access_token s'))
     (log_in (PStr ''me@example.com'') (PStr ''secret'') [''read'', ''write''] None
        login_session token_world)
     = Some (Inl (MastodonAPIError
           (''Granted scopes '' @ [CHR 0x22] @ ''read'' @ [CHR 0x22]
            @ '' differ from requested scopes '' @ [CHR 0x22] @ ''read write'' @ [CHR 0x22] @ ''.'')),
         PStr ''tok'')
   \<and> access_token login_session = PNone"
proof -
  obtain params where p: "log_in_params login_session (PStr ''me@example.com'') (PStr ''secret'')
      [''read'', ''write''] None = Inr params"
    by (simp add: log_in_params_def generate_params_def AList.delete_eq)
  from token_run [of params] obtain s1 w1 where
    call: "api_request ''POST'' ''/oauth/token'' params [] login_session token_world
      = Some (Inr (PDict [(''access_token'', PStr ''tok''), (''scope'', PStr ''read'')]), s1, w1)"
    by blast
  have "access_token login_session = PNone"
    by (simp add: login_session_def)
  then show ?thesis
    by (simp add: log_in_def p call subscript_def Let_def)
qed

text \<open>
  C10. For a call of \<^verbatim>\<open>log_in\<close> with a \<^verbatim>\<open>to_file\<close> path the form
  parameters are built without an exception and hold \<^verbatim>\<open>to_file\<close> with that
  path; the call hands them to \<^verbatim>\<open>__api_request\<close> for \<^verbatim>\<open>POST\<close>
  \<^verbatim>\<open>/oauth/token\<close> and does not return exactly when that request is throttled
  for ever; every turn of the request loop, from any session and world, sends one
  request whose form data are these parameters; and a call that returns (with a result
  or an exception) has sent only such requests, at least one of them unless the pacing
  block or the header construction raised before the request.
\<close>

theorem log_in_sends_to_file:
  "\<exists>params.
      log_in_params s username password scopes (Some path) = Inr params
      \<and> map_of params ''to_file'' = Some (PStr path)
      \<and> (log_in username password scopes (Some path) s w = None
           \<longleftrightarrow> api_request ''POST'' ''/oauth/token'' params [] s w = None)
      \<and> (\<forall>hdrs s1 w1. \<exists>res s2 w2.
            attempt ''POST'' ''/oauth/token'' params hdrs [] s1 w1 = (res, s2, w2)
            \<and> sent w2 = sent w1
                 @ [(clock w1, the_request ''POST'' ''/oauth/token'' params hdrs [] s1)]
            \<and> data (the_request ''POST'' ''/oauth/token'' params hdrs [] s1) = params)
      \<and> (\<forall>res s' w'.
            log_in username password scopes (Some path) s w = Some (res, s', w') \<longrightarrow>
            (\<exists>ts hdrs.
               sent w' = sent w
                 @ map (\<lambda>t. (t, the_request ''POST'' ''/oauth/token'' params hdrs [] s)) ts
               \<and> (fst (pace_block s w) = None \<and> request_headers s \<noteq> Inl TypeError
                    \<longrightarrow> ts \<noteq> [])))"
proof -
  from log_in_params_to_file [of s username password scopes path]
  obtain params where p: "log_in_params s username password scopes (Some path) = Inr params"
    and tf: "map_of params ''to_file'' = Some (PStr path)"
    by blast
  let ?rq = "\<lambda>hdrs. the_request ''POST'' ''/oauth/token'' params hdrs [] s"
  have diverges: "log_in username password scopes (Some path) s w = None
           \<longleftrightarrow> api_request ''POST'' ''/oauth/token'' params [] s w = None"
    using p
    by (auto simp add: log_in_def Let_def
        split: option.splits sum.splits pyval.splits prod.splits if_splits)
  have turn: "\<exists>res s2 w2.
            attempt ''POST'' ''/oauth/token'' params hdrs [] s1 w1 = (res, s2, w2)
            \<and> sent w2 = sent w1
                 @ [(clock w1, the_request ''POST'' ''/oauth/token'' params hdrs [] s1)]
            \<and> data (the_request ''POST'' ''/oauth/token'' params hdrs [] s1) = params"
    for hdrs s1 w1
  proof -
    obtain res s2 w2 where a: "attempt ''POST'' ''/oauth/token'' params hdrs [] s1 w1 = (res, s2, w2)"
      by (cases "attempt ''POST'' ''/oauth/token'' params hdrs [] s1 w1") auto
    from attempt_sent [OF a] have "sent w2 = sent w1
                 @ [(clock w1, the_request ''POST'' ''/oauth/token'' params hdrs [] s1)]"
      by simp
    then show ?thesis
      using a by (simp add: the_request_def)
  qed
  have returns: "\<exists>ts hdrs. sent w' = sent w @ map (\<lambda>t. (t, ?rq hdrs)) ts
               \<and> (fst (pace_block s w) = None \<and> request_headers s \<noteq> Inl TypeError
                    \<longrightarrow> ts \<noteq> [])"
    if run: "log_in username password scopes (Some path) s w = Some (res, s', w')"
    for res s' w'
  proof -
    obtain r1 s1 w1 where call: "api_request ''POST'' ''/oauth/token'' params [] s w = Some (r1, s1, w1)"
      and same: "sent w' = sent w1"
      using run p
      by (auto simp add: log_in_def Let_def
          split: option.splits sum.splits pyval.splits prod.splits if_splits)
    obtain e0 w0 where pb: "pace_block s w = (e0, w0)"
      by (cases "pace_block s w")
    from pace_block_frame [OF pb] have w0: "sent w0 = sent w"
      by simp
    show ?thesis
    proof (cases e0)
      case (Some e)
      then have "sent w' = sent w @ map (\<lambda>t. (t, ?rq None)) []"
        using call pb same w0 by (auto simp add: api_request_def)
      moreover have "fst (pace_block s w) \<noteq> None"
        using pb Some by simp
      ultimately show ?thesis
        by - (rule exI [of _ "[]"], rule exI [of _ None], simp)
    next
      case None
      show ?thesis
      proof (cases "request_headers s")
        case (Inl e)
        then have "sent w' = sent w @ map (\<lambda>t. (t, ?rq None)) []"
          using call pb None same w0 by (auto simp add: api_request_def)
        moreover have "request_headers s = Inl TypeError"
          using Inl request_headers_error by blast
        ultimately show ?thesis
          by - (rule exI [of _ "[]"], rule exI [of _ None], simp)
      next
        case (Inr hdrs)
        then have "request_loop ''POST'' ''/oauth/token'' params hdrs [] s w0 = Some (r1, s1, w1)"
          using call pb None by (simp add: api_request_def)
        from request_loop_sent [OF this]
        obtain ts where "sent w1 = sent w0 @ map (\<lambda>t. (t, ?rq hdrs)) ts" and "ts \<noteq> []"
          by auto
        then have "sent w' = sent w @ map (\<lambda>t. (t, ?rq hdrs)) ts" and "ts \<noteq> []"
          using same w0 by simp_all
        then show ?thesis
          by - (rule exI [of _ ts], rule exI [of _ hdrs], simp)
      qed
    qed
  qed
  from returns have all_returns: "\<forall>res s' w'.
            log_in username password scopes (Some path) s w = Some (res, s', w') \<longrightarrow>
            (\<exists>ts hdrs.
               sent w' = sent w @ map (\<lambda>t. (t, ?rq hdrs)) ts
               \<and> (fst (pace_block s w) = None \<and> request_headers s \<noteq> Inl TypeError
                    \<longrightarrow> ts \<noteq> []))"
    by (intro allI impI)
  from turn have all_turns: "\<forall>hdrs s1 w1. \<exists>res s2 w2.
            attempt ''POST'' ''/oauth/token'' params hdrs [] s1 w1 = (res, s2, w2)
            \<and> sent w2 = sent w1
                 @ [(clock w1, the_request ''POST'' ''/oauth/token'' params hdrs [] s1)]
            \<and> data (the_request ''POST'' ''/oauth/token'' params hdrs [] s1) = params"
    by (intro allI)
  show ?thesis
    by (rule exI [of _ params]) (intro conjI p tf diverges all_turns all_returns)
qed

theorem log_in_sends_to_file_witness:
  "\<exists>params res s' w' ts hdrs.
      log_in_params login_session (PStr ''me@example.com'') (PStr ''secret'') [''read'']
        (Some ''token.txt'') = Inr params
      \<and> map_of params ''to_file'' = Some (PStr ''token.txt'')
      \<and> log_in (PStr ''me@example.com'') (PStr ''secret'') [''read''] (Some ''token.txt'')
        login_session token_world = Some (res, s', w')
      \<and> sent w' = sent token_world
           @ map (\<lambda>t. (t, the_request ''POST'' ''/oauth/token'' params hdrs [] login_session)) ts
      \<and> ts \<noteq> []"
proof -
  from log_in_sends_to_file [of login_session "PStr ''me@example.com''" "PStr ''secret''"
      "[''read'']" "''token.txt''" token_world]
  obtain params where p: "log_in_params login_session (PStr ''me@example.com'') (PStr ''secret'')
      [''read''] (Some ''token.txt'') = Inr params"
    and tf: "map_of params ''to_file'' = Some (PStr ''token.txt'')"
    and returns: "\<forall>res s' w'.
            log_in (PStr ''me@example.com'') (PStr ''secret'') [''read''] (Some ''token.txt'')
              login_session token_world = Some (res, s', w') \<longrightarrow>
            (\<exists>ts hdrs.
               sent w' = sent token_world
                 @ map (\<lambda>t. (t, the_request ''POST'' ''/oauth/token'' params hdrs []
                     login_session)) ts
               \<and> (fst (pace_block login_session token_world) = None
                    \<and> request_headers login_session \<noteq> Inl TypeError \<longrightarrow> ts \<noteq> []))"
    by blast
  from token_run [of params] obtain s1 w1 where
    call: "api_request ''POST'' ''/oauth/token'' params [] login_session token_world
      = Some (Inr (PDict [(''access_token'', PStr ''tok''), (''scope'', PStr ''read'')]), s1, w1)"
    by blast
  have "\<exists>res s' w'. log_in (PStr ''me@example.com'') (PStr ''secret'') [''read'']
      (Some ''token.txt'') login_session token_world = Some (res, s', w')"
    by (cases "open_error w1 ''token.txt''")
      (simp_all add: log_in_def p call subscript_def Let_def)
  then obtain res s' w' where run: "log_in (PStr ''me@example.com'') (PStr ''secret'') [''read'']
      (Some ''token.txt'') login_session token_world = Some (res, s', w')"
    by blast
  have pre: "fst (pace_block login_session token_world) = None
      \<and> request_headers login_session \<noteq> Inl TypeError"
    by (simp add: pace_block_def request_headers_def login_session_def paced_session_def)
  from returns run pre tf p
  show ?thesis
    by blast
qed

end
